theory Spec2Isabelle
  imports Main "HOL-Library.Word"
begin

section \<open>The ecodemand governor: data model\<close>

text \<open>
  A shallow embedding of \<^verbatim>\<open>cpufreq_ecodemand.c\<close>. The kernel's \<^verbatim>\<open>u64\<close> is a 64-bit
  word and \<^verbatim>\<open>unsigned int\<close> a 32-bit word, so \<open>+\<close>, \<open>-\<close> and \<open>*\<close> wrap as in C. A C
  \<^verbatim>\<open>int\<close> is the same 32 bits read in two's complement: \<open>sint\<close> reads it, signed
  comparisons compare the \<open>sint\<close> values, and its subtraction wraps (the kernel is built
  with \<^verbatim>\<open>-fno-strict-overflow\<close>).
\<close>

type_synonym u64 = "64 word"
type_synonym u32 = "32 word"
type_synonym s32 = "32 word"

text \<open>\<^verbatim>\<open>struct eco_cpu_stats\<close>.\<close>

record eco_cpu_stats =
  prev_total_time :: u64
  prev_busy_time :: u64

text \<open>\<^verbatim>\<open>struct eco_tuners\<close>; \<open>powersave_bias\<close> is the only signed field.\<close>

record eco_tuners =
  up_threshold :: u32
  down_threshold :: u32
  freq_step :: u32
  sampling_rate :: u32
  sampling_down_factor :: u32
  powersave_bias :: s32

text \<open>
  The fields of the kernel's \<^verbatim>\<open>struct cpufreq_policy\<close> that the governor reads:
  \<^verbatim>\<open>policy->cpus\<close> (the units of the group, in the order \<^verbatim>\<open>for_each_cpu\<close> visits them),
  \<^verbatim>\<open>policy->min\<close>, \<^verbatim>\<open>policy->cur\<close> and \<^verbatim>\<open>policy->max\<close> in kHz. The structure belongs to
  the cpufreq core, which may change it between two ticks, so every tick is given the
  value it finds behind \<^verbatim>\<open>dbs->policy\<close>.
\<close>

record cpufreq_policy =
  policy_cpus :: "nat list"
  policy_min :: u32
  policy_cur :: u32
  policy_max :: u32

text \<open>
  \<^verbatim>\<open>struct eco_policy_dbs\<close> without the mutex, the work item and the policy pointer.
  \<^verbatim>\<open>cpu_stats\<close> is the array indexed by cpu number.
\<close>

record eco_policy_dbs =
  tuners :: eco_tuners
  cpu_stats :: "nat \<Rightarrow> eco_cpu_stats"
  down_count :: u32

text \<open>
  The idle-time accounting of the kernel. \<^verbatim>\<open>get_cpu_idle_time(cpu, &wall, 1)\<close> and
  \<^verbatim>\<open>get_cpu_idle_time_us(cpu, &wall)\<close> are not part of this module: each is a parameter
  giving, for a cpu, the pair (idle time, wall time) read at this tick.
\<close>

record time_source =
  get_cpu_idle_time :: "nat \<Rightarrow> u64 \<times> u64"
  get_cpu_idle_time_us :: "nat \<Rightarrow> u64 \<times> u64"

text \<open>The rounding hint of \<^verbatim>\<open>__cpufreq_driver_target\<close> and the request handed to it.\<close>

datatype cpufreq_relation = CPUFREQ_RELATION_L | CPUFREQ_RELATION_H

type_synonym freq_request = "u32 \<times> cpufreq_relation"

text \<open>
  Dividing an integer by zero is undefined in C and a divide error on x86: the model
  checks every divisor that is not a constant and returns the error as a value.
\<close>

datatype eco_error = Divide_Error

definition div64_u64 :: "u64 \<Rightarrow> u64 \<Rightarrow> eco_error + u64" where
  "div64_u64 dividend divisor =
     (if divisor = 0 then Inl Divide_Error else Inr (dividend div divisor))"

definition udiv :: "u32 \<Rightarrow> u32 \<Rightarrow> eco_error + u32" where
  "udiv dividend divisor =
     (if divisor = 0 then Inl Divide_Error else Inr (dividend div divisor))"

section \<open>\<^verbatim>\<open>eco_calculate_load\<close>\<close>

text \<open>
  The reading used for one cpu (lines 83 to 85): the primary accounting, replaced as a
  whole by the microsecond accounting when the primary wall time is 0.
\<close>

definition eco_read_times :: "time_source \<Rightarrow> nat \<Rightarrow> u64 \<times> u64" where
  "eco_read_times ts cpu =
     (let (cur_idle_time, cur_wall_time) = get_cpu_idle_time ts cpu
      in if cur_wall_time = 0 then get_cpu_idle_time_us ts cpu
         else (cur_idle_time, cur_wall_time))"

text \<open>
  The body of the loop (lines 79 to 97) on the state it touches: the stats array and the
  two running totals \<open>(total_busy_time, total_wall_time)\<close>.
\<close>

definition eco_sample_cpu ::
  "time_source \<Rightarrow> nat \<Rightarrow> (nat \<Rightarrow> eco_cpu_stats) \<times> u64 \<times> u64
     \<Rightarrow> (nat \<Rightarrow> eco_cpu_stats) \<times> u64 \<times> u64" where
  "eco_sample_cpu ts cpu s =
     (case s of (stats, total_busy_time, total_wall_time) \<Rightarrow>
        (let st = stats cpu;
             (cur_idle_time, cur_wall_time) = eco_read_times ts cpu;
             dt = cur_wall_time - prev_total_time st;
             db = dt - (cur_idle_time - (prev_total_time st - prev_busy_time st));
             stats' = stats(cpu := st\<lparr>prev_total_time := cur_wall_time,
                                      prev_busy_time := cur_wall_time - cur_idle_time\<rparr>)
         in if 0 < dt then (stats', total_busy_time + db, total_wall_time + dt)
            else (stats', total_busy_time, total_wall_time)))"

text \<open>\<^verbatim>\<open>for_each_cpu(cpu, policy->cpus)\<close>.\<close>

fun eco_sample_cpus ::
  "time_source \<Rightarrow> nat list \<Rightarrow> (nat \<Rightarrow> eco_cpu_stats) \<times> u64 \<times> u64
     \<Rightarrow> (nat \<Rightarrow> eco_cpu_stats) \<times> u64 \<times> u64" where
  "eco_sample_cpus ts [] s = s"
| "eco_sample_cpus ts (cpu # rest) s = eco_sample_cpus ts rest (eco_sample_cpu ts cpu s)"

text \<open>
  Lines 100 to 108: the raw usage, truncated from 64 to 32 bits by the assignment to
  \<^verbatim>\<open>unsigned int raw_usage\<close>, then scaled in 32-bit arithmetic.
\<close>

definition eco_scale_load :: "cpufreq_policy \<Rightarrow> u64 \<Rightarrow> u64 \<Rightarrow> eco_error + u32" where
  "eco_scale_load policy total_busy_time total_wall_time =
     (if 0 < total_wall_time then
        (case div64_u64 (total_busy_time * 100) total_wall_time of
           Inl e \<Rightarrow> Inl e
         | Inr q \<Rightarrow> (let raw_usage = (ucast q :: u32)
                     in udiv (raw_usage * policy_cur policy) (policy_max policy)))
      else Inr 0)"

definition eco_calculate_load ::
  "time_source \<Rightarrow> cpufreq_policy \<Rightarrow> eco_policy_dbs \<Rightarrow> eco_error + u32 \<times> eco_policy_dbs" where
  "eco_calculate_load ts policy dbs =
     (case eco_sample_cpus ts (policy_cpus policy) (cpu_stats dbs, 0, 0) of
        (stats', total_busy_time, total_wall_time) \<Rightarrow>
          (case eco_scale_load policy total_busy_time total_wall_time of
             Inl e \<Rightarrow> Inl e
           | Inr load \<Rightarrow> Inr (load, dbs\<lparr>cpu_stats := stats'\<rparr>)))"

section \<open>\<^verbatim>\<open>eco_dbs_update\<close>\<close>

text \<open>Lines 129 to 133: \<^verbatim>\<open>(int)load - powersave_bias\<close>, clamped to 0..100.\<close>

definition eco_effective_load :: "u32 \<Rightarrow> s32 \<Rightarrow> s32" where
  "eco_effective_load load bias =
     (let effective_load = load - bias;
          effective_load = (if sint effective_load < 0 then 0 else effective_load)
      in if 100 < sint effective_load then 100 else effective_load)"

text \<open>Lines 136 to 138: the step in kHz.\<close>

definition eco_freq_step_khz :: "cpufreq_policy \<Rightarrow> eco_tuners \<Rightarrow> u32" where
  "eco_freq_step_khz policy t =
     (let freq_step_khz = (policy_max policy * freq_step t) div 100
      in if freq_step_khz = 0 then 1000 else freq_step_khz)"

text \<open>Lines 144 to 146 and 153 to 159: the frequency asked for.\<close>

definition eco_step_up :: "cpufreq_policy \<Rightarrow> u32 \<Rightarrow> u32" where
  "eco_step_up policy freq_step_khz =
     (let next_freq = policy_cur policy + freq_step_khz
      in if policy_max policy < next_freq then policy_max policy else next_freq)"

definition eco_step_down :: "cpufreq_policy \<Rightarrow> u32 \<Rightarrow> u32" where
  "eco_step_down policy freq_step_khz =
     (let next_freq = (if freq_step_khz < policy_cur policy
                       then policy_cur policy - freq_step_khz else policy_min policy)
      in if next_freq < policy_min policy then policy_min policy else next_freq)"

text \<open>
  Lines 141 to 169. The comparisons of the \<^verbatim>\<open>int effective_load\<close> with the unsigned
  thresholds are unsigned comparisons in C, hence \<open><\<close> on words.
\<close>

definition eco_decide ::
  "cpufreq_policy \<Rightarrow> s32 \<Rightarrow> eco_policy_dbs \<Rightarrow> eco_policy_dbs \<times> freq_request option" where
  "eco_decide policy effective_load dbs =
     (let freq_step_khz = eco_freq_step_khz policy (tuners dbs);
          next_freq = policy_cur policy
      in if up_threshold (tuners dbs) < effective_load then
           (dbs\<lparr>down_count := 0\<rparr>,
            if next_freq < policy_max policy
            then Some (eco_step_up policy freq_step_khz, CPUFREQ_RELATION_H) else None)
         else if effective_load < down_threshold (tuners dbs) then
           (let dbs = dbs\<lparr>down_count := down_count dbs + 1\<rparr>
            in if sampling_down_factor (tuners dbs) \<le> down_count dbs then
                 (dbs\<lparr>down_count := 0\<rparr>,
                  if policy_min policy < next_freq
                  then Some (eco_step_down policy freq_step_khz, CPUFREQ_RELATION_L)
                  else None)
               else (dbs, None))
         else (dbs\<lparr>down_count := 0\<rparr>, None))"

text \<open>
  One tick: the new governor state and the request made to \<^verbatim>\<open>__cpufreq_driver_target\<close>,
  if any. \<^verbatim>\<open>eco_dbs_timer\<close> runs this under the mutex whenever \<^verbatim>\<open>dbs->policy\<close> is set,
  which \<^verbatim>\<open>eco_init\<close> establishes.
\<close>

definition eco_dbs_update ::
  "time_source \<Rightarrow> cpufreq_policy \<Rightarrow> eco_policy_dbs
     \<Rightarrow> eco_error + eco_policy_dbs \<times> freq_request option" where
  "eco_dbs_update ts policy dbs =
     (case eco_calculate_load ts policy dbs of
        Inl e \<Rightarrow> Inl e
      | Inr (load, dbs) \<Rightarrow>
          Inr (eco_decide policy (eco_effective_load load (powersave_bias (tuners dbs))) dbs))"


section \<open>Sequences of ticks\<close>

text \<open>
  The effective load a tick works with: the value \<^verbatim>\<open>eco_dbs_update\<close> holds in
  \<^verbatim>\<open>effective_load\<close> when it reaches line 141.
\<close>

definition eco_tick_load ::
  "time_source \<Rightarrow> cpufreq_policy \<Rightarrow> eco_policy_dbs \<Rightarrow> eco_error + s32" where
  "eco_tick_load ts policy dbs =
     (case eco_calculate_load ts policy dbs of
        Inl e \<Rightarrow> Inl e
      | Inr (load, dbs1) \<Rightarrow> Inr (eco_effective_load load (powersave_bias (tuners dbs1))))"

text \<open>
  A run of the timer: each tick comes with the readings of the time source and the
  policy structure as they are when it fires. The trace records, for every tick, its
  effective load, the governor state it leaves and the request it made.
\<close>

type_synonym eco_tick = "time_source \<times> cpufreq_policy"

record eco_tick_result =
  tick_load :: s32
  tick_state :: eco_policy_dbs
  tick_request :: "freq_request option"

fun eco_run :: "eco_tick list \<Rightarrow> eco_policy_dbs \<Rightarrow> eco_error + eco_tick_result list" where
  "eco_run [] dbs = Inr []"
| "eco_run ((ts, policy) # rest) dbs =
     (case eco_tick_load ts policy dbs of
        Inl e \<Rightarrow> Inl e
      | Inr eff \<Rightarrow>
          (case eco_dbs_update ts policy dbs of
             Inl e \<Rightarrow> Inl e
           | Inr (dbs', req) \<Rightarrow>
               (case eco_run rest dbs' of
                  Inl e \<Rightarrow> Inl e
                | Inr tr \<Rightarrow>
                    Inr (\<lparr>tick_load = eff, tick_state = dbs', tick_request = req\<rparr> # tr))))"

section \<open>Well-formed input of a tick\<close>

text \<open>
  A reading \<open>(idle, wall)\<close> of one cpu is well formed against the stored sample when
  neither the wall counter nor the idle counter (stored as total minus busy) went
  backwards, and the idle time that passed is at most the wall time that passed.
\<close>

definition sample_ok :: "eco_cpu_stats \<Rightarrow> u64 \<times> u64 \<Rightarrow> bool" where
  "sample_ok st r =
     (case r of (cur_idle_time, cur_wall_time) \<Rightarrow>
        prev_total_time st \<le> cur_wall_time \<and>
        prev_total_time st - prev_busy_time st \<le> cur_idle_time \<and>
        cur_idle_time - (prev_total_time st - prev_busy_time st)
          \<le> cur_wall_time - prev_total_time st)"

definition valid_tick :: "time_source \<Rightarrow> cpufreq_policy \<Rightarrow> eco_policy_dbs \<Rightarrow> bool" where
  "valid_tick ts policy dbs =
     (list_all (\<lambda>cpu. sample_ok (cpu_stats dbs cpu) (eco_read_times ts cpu))
        (policy_cpus policy) \<and>
      policy_min policy \<le> policy_cur policy \<and>
      policy_cur policy \<le> policy_max policy \<and>
      0 < policy_max policy)"

text \<open>The wall time that passed on a cpu since its stored sample, as a number.\<close>

definition wall_delta :: "time_source \<Rightarrow> (nat \<Rightarrow> eco_cpu_stats) \<Rightarrow> nat \<Rightarrow> nat" where
  "wall_delta ts stats cpu = unat (snd (eco_read_times ts cpu) - prev_total_time (stats cpu))"

text \<open>
  The sample the loop stores for a cpu, and whether wall time passed on a cpu since its
  stored sample: the unsigned difference that line 94 tests.
\<close>

definition new_sample :: "time_source \<Rightarrow> nat \<Rightarrow> eco_cpu_stats" where
  "new_sample ts cpu =
     (case eco_read_times ts cpu of (cur_idle_time, cur_wall_time) \<Rightarrow>
        \<lparr>prev_total_time = cur_wall_time, prev_busy_time = cur_wall_time - cur_idle_time\<rparr>)"

definition has_wall_delta :: "time_source \<Rightarrow> (nat \<Rightarrow> eco_cpu_stats) \<Rightarrow> nat \<Rightarrow> bool" where
  "has_wall_delta ts stats cpu =
     (snd (eco_read_times ts cpu) - prev_total_time (stats cpu) \<noteq> 0)"

section \<open>Inputs of the examples\<close>

text \<open>The tunables as \<^verbatim>\<open>eco_init\<close> sets them (lines 211 to 216).\<close>

definition eco_default_tuners :: eco_tuners where
  "eco_default_tuners =
     \<lparr>up_threshold = 80, down_threshold = 20, freq_step = 5, sampling_rate = 10000,
      sampling_down_factor = 1, powersave_bias = 0\<rparr>"

text \<open>A time source on which both accountings read the given pair for every cpu.\<close>

definition const_times :: "u64 \<Rightarrow> u64 \<Rightarrow> time_source" where
  "const_times idle wall =
     \<lparr>get_cpu_idle_time = (\<lambda>cpu. (idle, wall)), get_cpu_idle_time_us = (\<lambda>cpu. (idle, wall))\<rparr>"

text \<open>The stats array in which every cpu has the given stored sample.\<close>

definition const_stats :: "u64 \<Rightarrow> u64 \<Rightarrow> nat \<Rightarrow> eco_cpu_stats" where
  "const_stats tot busy = (\<lambda>cpu. \<lparr>prev_total_time = tot, prev_busy_time = busy\<rparr>)"

text \<open>A group of one cpu with the given frequencies in kHz.\<close>

definition one_cpu_policy :: "u32 \<Rightarrow> u32 \<Rightarrow> u32 \<Rightarrow> cpufreq_policy" where
  "one_cpu_policy lo cur hi =
     \<lparr>policy_cpus = [0], policy_min = lo, policy_cur = cur, policy_max = hi\<rparr>"

text \<open>A time source that reads \<open>r0\<close> on cpu 0 and \<open>r1\<close> on every other cpu.\<close>

definition split_times :: "u64 \<times> u64 \<Rightarrow> u64 \<times> u64 \<Rightarrow> time_source" where
  "split_times r0 r1 =
     \<lparr>get_cpu_idle_time = (\<lambda>cpu. if cpu = 0 then r0 else r1),
      get_cpu_idle_time_us = (\<lambda>cpu. if cpu = 0 then r0 else r1)\<rparr>"

lemmas eco_tick_defs =
  eco_dbs_update_def eco_calculate_load_def eco_sample_cpu_def eco_read_times_def
  eco_scale_load_def div64_u64_def udiv_def eco_decide_def eco_effective_load_def
  eco_freq_step_khz_def eco_step_up_def eco_step_down_def eco_tick_load_def Let_def

lemmas eco_example_defs =
  eco_default_tuners_def const_times_def const_stats_def one_cpu_policy_def

lemmas eco_eval =
  eco_tick_defs eco_example_defs split_times_def word_le_nat_alt word_less_nat_alt

section \<open>Basic facts\<close>

lemma eco_calculate_load_fields:
  assumes "eco_calculate_load ts policy dbs = Inr (load, dbs1)"
  shows "tuners dbs1 = tuners dbs" and "down_count dbs1 = down_count dbs"
  using assms by (auto simp: eco_calculate_load_def split: prod.splits sum.splits)

lemma uint_eq_sint_nonneg:
  fixes w :: "32 word"
  assumes "0 \<le> sint w"
  shows "uint w = sint w"
proof -
  have "sint w < 2 ^ 32" using sint_lt[of w] by simp
  with assms show ?thesis by (simp add: uint_sint take_bit_int_eq_self)
qed

lemma eco_effective_load_sint:
  "0 \<le> sint (eco_effective_load load bias) \<and> sint (eco_effective_load load bias) \<le> 100"
  by (simp add: eco_effective_load_def Let_def)

lemma eco_effective_load_le: "eco_effective_load load bias \<le> 100"
proof -
  have "uint (eco_effective_load load bias) \<le> 100"
    using eco_effective_load_sint[of load bias]
      uint_eq_sint_nonneg[of "eco_effective_load load bias"] by simp
  then show ?thesis by (simp add: word_le_def)
qed

lemma eco_freq_step_khz_nonzero: "eco_freq_step_khz policy t \<noteq> 0"
  by (simp add: eco_freq_step_khz_def Let_def)

lemma eco_step_up_min:
  "eco_step_up policy s = min (policy_cur policy + s) (policy_max policy)"
  by (auto simp: eco_step_up_def Let_def min_def)

lemma eco_dbs_update_decide:
  assumes "eco_calculate_load ts policy dbs = Inr (load, dbs1)"
  shows "eco_dbs_update ts policy dbs =
           Inr (eco_decide policy (eco_effective_load load (powersave_bias (tuners dbs))) dbs1)"
  using assms eco_calculate_load_fields(1)[OF assms] by (simp add: eco_dbs_update_def)

lemma sint_sub_no_overflow:
  fixes a b :: "32 word"
  assumes "- (2 ^ 31) \<le> sint a - sint b" and "sint a - sint b < 2 ^ 31"
  shows "sint (a - b) = sint a - sint b"
  using assms by (simp add: sint_word_diff signed_take_bit_int_eq_self)

lemma sint_eq_uint_small:
  fixes w :: "32 word"
  assumes "uint w < 2 ^ 31"
  shows "sint w = uint w"
proof -
  have "- (2 ^ 31) \<le> (0 :: int)" by simp
  also have "0 \<le> uint w" by simp
  finally have "- (2 ^ 31) \<le> uint w" .
  with assms show ?thesis by (simp add: sint_uint signed_take_bit_int_eq_self)
qed

lemma eco_effective_load_clamp:
  "sint (eco_effective_load load bias) = max 0 (min 100 (sint (load - bias)))"
  by (simp add: eco_effective_load_def Let_def)

lemma eco_effective_load_zero:
  assumes "0 \<le> sint bias"
  shows "eco_effective_load 0 bias = 0"
proof -
  have "sint (0 - bias) = sint (0 :: 32 word) - sint bias"
    using assms sint_lt[of bias] by (intro sint_sub_no_overflow) simp_all
  then have "sint (eco_effective_load 0 bias) = 0"
    using assms by (simp add: eco_effective_load_clamp)
  then have "uint (eco_effective_load 0 bias) = 0"
    using uint_eq_sint_nonneg[of "eco_effective_load 0 bias"] by simp
  then show ?thesis by (simp add: uint_0_iff)
qed

lemma eco_tick_load_calc:
  assumes "eco_tick_load ts policy dbs = Inr eff"
  obtains load dbs1 where "eco_calculate_load ts policy dbs = Inr (load, dbs1)"
    and "eff = eco_effective_load load (powersave_bias (tuners dbs))"
    and "eco_dbs_update ts policy dbs = Inr (eco_decide policy eff dbs1)"
    and "tuners dbs1 = tuners dbs" and "down_count dbs1 = down_count dbs"
proof -
  obtain load dbs1 where c: "eco_calculate_load ts policy dbs = Inr (load, dbs1)"
    using assms by (auto simp: eco_tick_load_def split: sum.splits)
  note f = eco_calculate_load_fields[OF c]
  have "eff = eco_effective_load load (powersave_bias (tuners dbs))"
    using assms c f by (simp add: eco_tick_load_def)
  then show ?thesis using that c f eco_dbs_update_decide[OF c] by simp
qed

lemma eco_decide_up:
  assumes "up_threshold (tuners dbs) < eff"
  shows "eco_decide policy eff dbs =
           (dbs\<lparr>down_count := 0\<rparr>,
            if policy_cur policy < policy_max policy
            then Some (eco_step_up policy (eco_freq_step_khz policy (tuners dbs)), CPUFREQ_RELATION_H)
            else None)"
  using assms by (simp add: eco_decide_def Let_def)

lemma eco_decide_band:
  assumes "\<not> up_threshold (tuners dbs) < eff" and "\<not> eff < down_threshold (tuners dbs)"
  shows "eco_decide policy eff dbs = (dbs\<lparr>down_count := 0\<rparr>, None)"
  using assms by (simp add: eco_decide_def Let_def)

lemma eco_decide_down:
  assumes "\<not> up_threshold (tuners dbs) < eff" and "eff < down_threshold (tuners dbs)"
  shows "eco_decide policy eff dbs =
           (if sampling_down_factor (tuners dbs) \<le> down_count dbs + 1
            then (dbs\<lparr>down_count := 0\<rparr>,
                  if policy_min policy < policy_cur policy
                  then Some (eco_step_down policy (eco_freq_step_khz policy (tuners dbs)),
                             CPUFREQ_RELATION_L)
                  else None)
            else (dbs\<lparr>down_count := down_count dbs + 1\<rparr>, None))"
  using assms by (simp add: eco_decide_def Let_def)

lemma eco_decide_tuners: "tuners (fst (eco_decide policy eff dbs)) = tuners dbs"
  by (simp add: eco_decide_def Let_def)

lemma eco_run_Cons:
  assumes "eco_run ((ts, policy) # rest) dbs = Inr tr"
  obtains eff dbs' req tr' where "eco_tick_load ts policy dbs = Inr eff"
    and "eco_dbs_update ts policy dbs = Inr (dbs', req)"
    and "eco_run rest dbs' = Inr tr'" and "tr = \<lparr>tick_load = eff, tick_state = dbs', tick_request = req\<rparr> # tr'"
  using assms by (auto split: sum.splits)

lemma eco_run_length:
  assumes "eco_run ticks dbs = Inr tr"
  shows "length tr = length ticks"
  using assms
proof (induction ticks arbitrary: dbs tr)
  case Nil
  then show ?case by simp
next
  case (Cons tick rest)
  obtain ts policy where tick: "tick = (ts, policy)" by (cases tick)
  from Cons.prems obtain eff dbs' req tr' where
    "eco_run rest dbs' = Inr tr'"
    and "tr = \<lparr>tick_load = eff, tick_state = dbs', tick_request = req\<rparr> # tr'"
    unfolding tick by (rule eco_run_Cons)
  with Cons.IH show ?case by simp
qed

lemma eco_dbs_update_tuners:
  assumes "eco_dbs_update ts policy dbs = Inr (dbs', req)"
  shows "tuners dbs' = tuners dbs"
proof -
  obtain load dbs1 where c: "eco_calculate_load ts policy dbs = Inr (load, dbs1)"
    using assms by (auto simp: eco_dbs_update_def split: sum.splits)
  have "dbs' = fst (eco_decide policy (eco_effective_load load (powersave_bias (tuners dbs))) dbs1)"
    using assms by (simp add: eco_dbs_update_decide[OF c])
  then show ?thesis
    by (simp add: eco_decide_tuners eco_calculate_load_fields(1)[OF c])
qed

section \<open>Arithmetic of the sampler and of the steps\<close>

lemma unat_ucast_64_32: "unat (ucast (q :: 64 word) :: 32 word) = unat q mod 2 ^ 32"
  by (simp add: unsigned_ucast_eq take_bit_eq_mod)

lemma mod_div_le_100:
  fixes a b m :: nat
  assumes "a \<le> b" and "0 < b"
  shows "(a * 100 mod m) div b \<le> 100"
proof -
  have "a * 100 mod m \<le> b * 100" using assms(1) by (meson mod_less_eq_dividend mult_le_mono1 order_trans)
  then have "(a * 100 mod m) div b \<le> (b * 100) div b" by (rule div_le_mono)
  with assms(2) show ?thesis by simp
qed

lemma mod_div_le_scale:
  fixes r c mx m :: nat
  assumes "c \<le> mx" and "0 < mx"
  shows "(r * c mod m) div mx \<le> r"
proof -
  have "r * c mod m \<le> r * mx" using assms(1) by (meson mod_less_eq_dividend mult_le_mono2 order_trans)
  then have "(r * c mod m) div mx \<le> (r * mx) div mx" by (rule div_le_mono)
  with assms(2) show ?thesis by simp
qed

lemma eco_scale_load_bound:
  assumes "unat tb \<le> unat tw" and "policy_cur policy \<le> policy_max policy"
    and "policy_max policy \<noteq> 0"
  shows "\<exists>load. eco_scale_load policy tb tw = Inr load \<and> load \<le> 100"
proof (cases "tw = 0")
  case True
  then show ?thesis by (simp add: eco_scale_load_def)
next
  case False
  define q where "q = (tb * 100) div tw"
  define raw :: u32 where "raw = ucast q"
  have tw: "0 < unat tw" using False by (simp add: unat_gt_0)
  have q: "unat q \<le> 100"
    using mod_div_le_100[OF assms(1) tw, of "2 ^ 64"]
    by (simp add: q_def unat_div unat_word_ariths)
  have raw: "unat raw \<le> 100"
    using q by (simp add: raw_def unat_ucast_64_32)
  have mx: "0 < unat (policy_max policy)" using assms(3) by (simp add: unat_gt_0)
  have c: "unat (policy_cur policy) \<le> unat (policy_max policy)"
    using assms(2) by (simp add: word_le_nat_alt)
  have "unat ((raw * policy_cur policy) div policy_max policy) \<le> unat raw"
    using mod_div_le_scale[OF c mx, of "unat raw" "2 ^ 32"]
    by (simp add: unat_div unat_word_ariths)
  with raw have "(raw * policy_cur policy) div policy_max policy \<le> 100"
    by (simp add: word_le_nat_alt)
  with False assms(3) show ?thesis
    by (simp add: eco_scale_load_def div64_u64_def udiv_def q_def raw_def word_neq_0_conv)
qed


lemma sample_ok_step:
  assumes ok: "sample_ok (stats cpu) (eco_read_times ts cpu)"
    and fit: "unat tw + wall_delta ts stats cpu < 2 ^ 64"
    and le: "unat tb \<le> unat tw"
    and step: "eco_sample_cpu ts cpu (stats, tb, tw) = (stats1, tb1, tw1)"
  shows "unat tb1 \<le> unat tw1"
    and "unat tw1 = unat tw + wall_delta ts stats cpu"
    and "sample_ok (stats1 cpu) (eco_read_times ts cpu)"
    and "wall_delta ts stats1 cpu = 0"
    and "\<And>c. c \<noteq> cpu \<Longrightarrow> stats1 c = stats c"
proof -
  obtain idle wall where r: "eco_read_times ts cpu = (idle, wall)"
    by (cases "eco_read_times ts cpu")
  define pt where "pt = prev_total_time (stats cpu)"
  define pb where "pb = prev_busy_time (stats cpu)"
  define dt where "dt = wall - pt"
  define db where "db = dt - (idle - (pt - pb))"
  from ok r have o: "pt \<le> wall" "pt - pb \<le> idle" "idle - (pt - pb) \<le> dt"
    by (simp_all add: sample_ok_def pt_def pb_def dt_def)
  have db: "unat db = unat dt - unat (idle - (pt - pb))" using o(3) by (simp add: db_def unat_sub)
  have db_le: "unat db \<le> unat dt" using db by simp
  have wd: "wall_delta ts stats cpu = unat dt" by (simp add: wall_delta_def r dt_def pt_def)
  have s1: "stats1 = stats(cpu := (stats cpu)\<lparr>prev_total_time := wall, prev_busy_time := wall - idle\<rparr>)"
    using step by (auto simp: eco_sample_cpu_def r Let_def split: if_splits)
  have tots: "tb1 = (if 0 < dt then tb + db else tb)" "tw1 = (if 0 < dt then tw + dt else tw)"
    using step by (auto simp: eco_sample_cpu_def r Let_def dt_def db_def pt_def pb_def split: if_splits)
  have tw1: "unat tw1 = unat tw + unat dt"
  proof (cases "0 < dt")
    case True
    then show ?thesis using fit wd tots by (simp add: unat_add_lem[THEN iffD1])
  next
    case False
    then have "dt = 0" by (simp add: word_neq_0_conv[symmetric])
    then show ?thesis using tots by simp
  qed
  show "unat tw1 = unat tw + wall_delta ts stats cpu" using tw1 wd by simp
  show "unat tb1 \<le> unat tw1"
  proof (cases "0 < dt")
    case True
    have "unat tb + unat db < 2 ^ 64" using fit wd db_le le by simp
    then have "unat (tb + db) = unat tb + unat db" by (simp add: unat_add_lem[THEN iffD1])
    then show ?thesis using True tots tw1 db_le le by simp
  next
    case False
    then show ?thesis using tots tw1 le by simp
  qed
  show "sample_ok (stats1 cpu) (eco_read_times ts cpu)"
    by (simp add: sample_ok_def r s1)
  show "wall_delta ts stats1 cpu = 0" by (simp add: wall_delta_def r s1)
  show "\<And>c. c \<noteq> cpu \<Longrightarrow> stats1 c = stats c" by (simp add: s1)
qed


lemma eco_sample_cpus_bound:
  assumes "\<forall>cpu\<in>set cpus. sample_ok (stats cpu) (eco_read_times ts cpu)"
    and "unat tw + sum_list (map (wall_delta ts stats) cpus) < 2 ^ 64"
    and "unat tb \<le> unat tw"
    and "eco_sample_cpus ts cpus (stats, tb, tw) = (stats', tb', tw')"
  shows "unat tb' \<le> unat tw'"
  using assms
proof (induction cpus arbitrary: stats tb tw)
  case Nil
  then show ?case by simp
next
  case (Cons c rest)
  obtain stats1 tb1 tw1 where step: "eco_sample_cpu ts c (stats, tb, tw) = (stats1, tb1, tw1)"
    by (cases "eco_sample_cpu ts c (stats, tb, tw)") auto
  have ok: "sample_ok (stats c) (eco_read_times ts c)" using Cons.prems(1) by simp
  have fit: "unat tw + wall_delta ts stats c < 2 ^ 64" using Cons.prems(2) by simp
  note s = sample_ok_step[OF ok fit Cons.prems(3) step]
  have ok1: "\<forall>cpu\<in>set rest. sample_ok (stats1 cpu) (eco_read_times ts cpu)"
  proof
    fix cpu assume "cpu \<in> set rest"
    then have "sample_ok (stats cpu) (eco_read_times ts cpu)" using Cons.prems(1) by simp
    then show "sample_ok (stats1 cpu) (eco_read_times ts cpu)"
      using s(3) s(5)[of cpu] by (cases "cpu = c") simp_all
  qed
  have "wall_delta ts stats1 cpu \<le> wall_delta ts stats cpu" for cpu
    using s(4) s(5)[of cpu] by (cases "cpu = c") (simp_all add: wall_delta_def)
  then have "sum_list (map (wall_delta ts stats1) rest) \<le> sum_list (map (wall_delta ts stats) rest)"
    by (intro sum_list_mono) simp
  then have fit1: "unat tw1 + sum_list (map (wall_delta ts stats1) rest) < 2 ^ 64"
    using Cons.prems(2) s(2) by simp
  have "eco_sample_cpus ts rest (stats1, tb1, tw1) = (stats', tb', tw')"
    using Cons.prems(4) step by simp
  from Cons.IH[OF ok1 fit1 s(1) this] show ?case .
qed

lemma eco_step_up_bounds:
  assumes "policy_min policy \<le> policy_cur policy" and "policy_cur policy \<le> policy_max policy"
    and "unat (policy_cur policy) + unat s < 2 ^ 32"
  shows "policy_min policy \<le> eco_step_up policy s \<and> eco_step_up policy s \<le> policy_max policy"
proof -
  have "unat (policy_cur policy + s) = unat (policy_cur policy) + unat s"
    using assms(3) by (simp add: unat_add_lem[THEN iffD1])
  then have "policy_cur policy \<le> policy_cur policy + s" by (simp add: word_le_nat_alt)
  with assms(1,2) show ?thesis by (auto simp: eco_step_up_def Let_def)
qed

lemma eco_step_down_bounds:
  assumes "policy_min policy \<le> policy_cur policy" and "policy_cur policy \<le> policy_max policy"
  shows "policy_min policy \<le> eco_step_down policy s \<and> eco_step_down policy s \<le> policy_max policy"
proof (cases "s < policy_cur policy")
  case True
  then have "unat (policy_cur policy - s) = unat (policy_cur policy) - unat s"
    by (simp add: unat_sub)
  then have "policy_cur policy - s \<le> policy_cur policy" by (simp add: word_le_nat_alt)
  with assms True show ?thesis by (auto simp: eco_step_down_def Let_def)
next
  case False
  with assms show ?thesis by (auto simp: eco_step_down_def Let_def)
qed

lemma eco_decide_request_bounds:
  assumes "policy_min policy \<le> policy_cur policy" and "policy_cur policy \<le> policy_max policy"
    and "unat (policy_cur policy) + unat (eco_freq_step_khz policy (tuners dbs)) < 2 ^ 32"
    and "eco_decide policy eff dbs = (dbs', Some (f, rel))"
  shows "policy_min policy \<le> f \<and> f \<le> policy_max policy"
  using assms(4) eco_step_up_bounds[OF assms(1,2,3)]
    eco_step_down_bounds[OF assms(1,2), of "eco_freq_step_khz policy (tuners dbs)"]
  by (auto simp: eco_decide_def Let_def split: if_splits)

lemma eco_scale_load_error:
  "eco_scale_load policy tb tw = Inl e \<longleftrightarrow> policy_max policy = 0 \<and> tw \<noteq> 0"
  by (cases e) (auto simp: eco_scale_load_def div64_u64_def udiv_def Let_def word_neq_0_conv)

lemma half_scale:
  fixes r k m :: nat
  shows "r * k div m = (r * (2 * k) div m) div 2"
proof -
  have e: "r * (2 * k) = r * k * 2" by simp
  have "r * (2 * k) div m div 2 = r * k * 2 div m div 2" by (simp only: e)
  also have "\<dots> = r * k * 2 div (m * 2)" by (simp only: div_mult2_eq)
  also have "\<dots> = r * k div m" by simp
  finally show ?thesis by simp
qed

section \<open>The debounce counter along a run\<close>

lemma debounce_from:
  assumes "eco_run ticks dbs = Inr tr"
    and "ticks \<noteq> []"
    and "unat (down_count dbs) + length ticks = unat (sampling_down_factor (tuners dbs))"
    and "down_threshold (tuners dbs) \<le> up_threshold (tuners dbs)"
    and "\<forall>r\<in>set tr. tick_load r < down_threshold (tuners dbs)"
    and "policy_min (snd (last ticks)) < policy_cur (snd (last ticks))"
  shows "map tick_request tr =
           replicate (length ticks - 1) None @
           [Some (eco_step_down (snd (last ticks))
                    (eco_freq_step_khz (snd (last ticks)) (tuners dbs)), CPUFREQ_RELATION_L)] \<and>
         down_count (tick_state (last tr)) = 0"
  using assms
proof (induction ticks arbitrary: dbs tr)
  case Nil
  then show ?case by simp
next
  case (Cons tick rest)
  note prems = Cons.prems and IH = Cons.IH
  obtain ts policy where tick: "tick = (ts, policy)" by (cases tick)
  from prems(1) obtain eff dbs' req tr' where
    e: "eco_tick_load ts policy dbs = Inr eff"
    and u: "eco_dbs_update ts policy dbs = Inr (dbs', req)"
    and r: "eco_run rest dbs' = Inr tr'" and tr: "tr = \<lparr>tick_load = eff, tick_state = dbs', tick_request = req\<rparr> # tr'"
    unfolding tick by (rule eco_run_Cons)
  from e obtain load :: u32 and dbs1 where
    d: "eco_dbs_update ts policy dbs = Inr (eco_decide policy eff dbs1)"
    and t1: "tuners dbs1 = tuners dbs" and c1: "down_count dbs1 = down_count dbs"
    by (rule eco_tick_load_calc)
  have t: "tuners dbs' = tuners dbs" using u by (rule eco_dbs_update_tuners)
  have dn: "eff < down_threshold (tuners dbs1)" using prems(5) tr t1 by simp
  then have up: "\<not> up_threshold (tuners dbs1) < eff" using prems(4) t1 by auto
  note dec = eco_decide_down[OF up dn, of policy]
  have fit: "unat (down_count dbs) + 1 < 2 ^ 32"
    using prems(3) unsigned_less[of "sampling_down_factor (tuners dbs)", where 'a = nat] by simp
  then have inc: "unat (down_count dbs + 1) = unat (down_count dbs) + 1"
    by (simp add: unat_add_lem[THEN iffD1])
  show ?case
  proof (cases rest)
    case Nil
    then have "tr' = []" using r by simp
    have "unat (down_count dbs + 1) = unat (sampling_down_factor (tuners dbs))"
      using prems(3) inc Nil by simp
    then have "sampling_down_factor (tuners dbs1) \<le> down_count dbs1 + 1"
      by (simp add: word_le_nat_alt t1 c1)
    with dec u d prems(6) Nil have
      "req = Some (eco_step_down policy (eco_freq_step_khz policy (tuners dbs)), CPUFREQ_RELATION_L)"
      "down_count dbs' = 0"
      by (auto simp: tick t1)
    then show ?thesis
      using Nil \<open>tr' = []\<close> by (simp add: tr tick)
  next
    case (Cons tick' rest')
    then have "unat (down_count dbs + 1) < unat (sampling_down_factor (tuners dbs))"
      using prems(3) inc by simp
    then have "\<not> sampling_down_factor (tuners dbs1) \<le> down_count dbs1 + 1"
      by (simp add: word_le_nat_alt t1 c1)
    with dec u d have now: "req = None" "down_count dbs' = down_count dbs + 1"
      by (auto simp: c1)
    have ne: "rest \<noteq> []" using Cons by simp
    have p3: "unat (down_count dbs') + length rest = unat (sampling_down_factor (tuners dbs'))"
      using prems(3) now inc t by simp
    have p4: "down_threshold (tuners dbs') \<le> up_threshold (tuners dbs')"
      using prems(4) t by simp
    have p5: "\<forall>r\<in>set tr'. tick_load r < down_threshold (tuners dbs')"
      using prems(5) tr t by simp
    have p6: "policy_min (snd (last rest)) < policy_cur (snd (last rest))"
      using prems(6) ne by simp
    have "tr' \<noteq> []" using eco_run_length[OF r] ne by auto
    with IH[OF r ne p3 p4 p5 p6] now ne show ?thesis
      by (cases rest) (simp_all add: tr t)
  qed
qed

section \<open>Bounds on load and requests\<close>

text \<open>
  Away from overflow the bounds hold. On a tick whose readings are well formed for every
  cpu of the group (\<open>valid_tick\<close>: no counter went backwards, the idle time passed is at
  most the wall time passed, \<open>policy_min \<le> policy_cur \<le> policy_max\<close> and
  \<open>policy_max > 0\<close>), on which the wall time passed summed over the group fits in 64
  bits and \<open>policy_cur + step\<close> fits in 32 bits, the tick completes, the computed load is
  at most 100, the effective load lies in 0..100, and a request, if one is made, lies in
  \<open>[policy_min, policy_max]\<close>.
\<close>

lemma tick_within_bounds:
  assumes "valid_tick ts policy dbs"
    and "sum_list (map (wall_delta ts (cpu_stats dbs)) (policy_cpus policy)) < 2 ^ 64"
    and "unat (policy_cur policy) + unat (eco_freq_step_khz policy (tuners dbs)) < 2 ^ 32"
  shows "\<exists>load dbs1 eff dbs' req.
           eco_calculate_load ts policy dbs = Inr (load, dbs1) \<and> load \<le> 100 \<and>
           eco_tick_load ts policy dbs = Inr eff \<and> 0 \<le> sint eff \<and> sint eff \<le> 100 \<and>
           eco_dbs_update ts policy dbs = Inr (dbs', req) \<and>
           (\<forall>f rel. req = Some (f, rel) \<longrightarrow> policy_min policy \<le> f \<and> f \<le> policy_max policy)"
proof -
  from assms(1) have ok: "\<forall>cpu\<in>set (policy_cpus policy).
                             sample_ok (cpu_stats dbs cpu) (eco_read_times ts cpu)"
    and lo: "policy_min policy \<le> policy_cur policy"
    and hi: "policy_cur policy \<le> policy_max policy"
    and mx: "policy_max policy \<noteq> 0"
    by (simp_all add: valid_tick_def list_all_iff word_neq_0_conv)
  obtain stats' tb tw where
    s: "eco_sample_cpus ts (policy_cpus policy) (cpu_stats dbs, 0, 0) = (stats', tb, tw)"
    by (cases "eco_sample_cpus ts (policy_cpus policy) (cpu_stats dbs, 0, 0)") auto
  have "unat tb \<le> unat tw"
    using eco_sample_cpus_bound[OF ok _ _ s] assms(2) by simp
  from eco_scale_load_bound[OF this hi mx] obtain load where
    l: "eco_scale_load policy tb tw = Inr load" and l100: "load \<le> 100"
    by blast
  let ?dbs1 = "dbs\<lparr>cpu_stats := stats'\<rparr>"
  let ?eff = "eco_effective_load load (powersave_bias (tuners dbs))"
  have c: "eco_calculate_load ts policy dbs = Inr (load, ?dbs1)"
    by (simp add: eco_calculate_load_def s l)
  have e: "eco_tick_load ts policy dbs = Inr ?eff"
    by (simp add: eco_tick_load_def c)
  obtain dbs' req where d: "eco_decide policy ?eff ?dbs1 = (dbs', req)"
    by (cases "eco_decide policy ?eff ?dbs1")
  have u: "eco_dbs_update ts policy dbs = Inr (dbs', req)"
    by (simp add: eco_dbs_update_decide[OF c] d)
  have fit: "unat (policy_cur policy) + unat (eco_freq_step_khz policy (tuners ?dbs1)) < 2 ^ 32"
    using assms(3) by simp
  have b: "policy_min policy \<le> f \<and> f \<le> policy_max policy" if "req = Some (f, rel)" for f rel
    using eco_decide_request_bounds[OF lo hi fit, of ?eff dbs' f rel] d that by simp
  show ?thesis
    using c l100 e eco_effective_load_sint[of load "powersave_bias (tuners dbs)"] u b by blast
qed

text \<open>
  C1. On well-formed input the computed load should lie in 0..100 and every request in
  \<open>[policy_min, policy_max]\<close>. The code breaks both on well-formed ticks. First tick: two
  cpus whose wall times passed are \<open>2^63\<close> and \<open>2^63 + 1\<close>; the sum on line 96 wraps to
  1, the raw usage is no longer in 0..100 as line 103 says, and the load comes out as
  4294967196. Second tick: \<open>next_freq += freq_step_khz\<close> on line 144 wraps past \<open>2^32\<close>,
  the clamp to \<open>policy->max\<close> on lines 145 and 146 does not fire, and the step-up request
  42949172 is below \<open>policy_min\<close>.
\<close>

theorem tick_out_of_bounds_on_overflow:
  "valid_tick (split_times (0, 9223372036854775808) (2, 9223372036854775809))
       \<lparr>policy_cpus = [0, 1], policy_min = 1, policy_cur = 1, policy_max = 1\<rparr>
       \<lparr>tuners = eco_default_tuners, cpu_stats = const_stats 0 0, down_count = 0\<rparr> \<and>
   eco_calculate_load (split_times (0, 9223372036854775808) (2, 9223372036854775809))
       \<lparr>policy_cpus = [0, 1], policy_min = 1, policy_cur = 1, policy_max = 1\<rparr>
       \<lparr>tuners = eco_default_tuners, cpu_stats = const_stats 0 0, down_count = 0\<rparr>
     = Inr (4294967196,
            \<lparr>tuners = eco_default_tuners,
             cpu_stats = (const_stats 0 0)
               (0 := \<lparr>prev_total_time = 9223372036854775808, prev_busy_time = 9223372036854775808\<rparr>,
                1 := \<lparr>prev_total_time = 9223372036854775809, prev_busy_time = 9223372036854775807\<rparr>),
             down_count = 0\<rparr>) \<and>
   \<not> (4294967196 :: u32) \<le> 100 \<and>
   valid_tick (const_times 0 100) (one_cpu_policy 4294966296 4294966796 4294967295)
       \<lparr>tuners = eco_default_tuners\<lparr>powersave_bias := - 100\<rparr>, cpu_stats = const_stats 0 0,
        down_count = 0\<rparr> \<and>
   eco_dbs_update (const_times 0 100) (one_cpu_policy 4294966296 4294966796 4294967295)
       \<lparr>tuners = eco_default_tuners\<lparr>powersave_bias := - 100\<rparr>, cpu_stats = const_stats 0 0,
        down_count = 0\<rparr>
     = Inr (\<lparr>tuners = eco_default_tuners\<lparr>powersave_bias := - 100\<rparr>,
             cpu_stats = (const_stats 0 0)(0 := \<lparr>prev_total_time = 100, prev_busy_time = 100\<rparr>),
             down_count = 0\<rparr>, Some (42949172, CPUFREQ_RELATION_H)) \<and>
   \<not> policy_min (one_cpu_policy 4294966296 4294966796 4294967295) \<le> (42949172 :: u32)"
  by (simp add: eco_eval valid_tick_def sample_ok_def)

section \<open>Debounced step-down\<close>

text \<open>
  C2. Let \<open>N = sampling_down_factor \<ge> 1\<close>, \<open>down_count = 0\<close> and
  \<open>down_threshold \<le> up_threshold\<close>. A run of \<open>N\<close> ticks whose effective loads are all
  strictly below \<open>down_threshold\<close>, with \<open>policy_cur > policy_min\<close> when the last one
  fires, makes no request on the first \<open>N - 1\<close> ticks and exactly one, the step-down
  request with hint \<open>CPUFREQ_RELATION_L\<close>, on the \<open>N\<close>th; \<open>down_count\<close> is 0 after it.
\<close>

theorem debounce_step_down:
  assumes "eco_run ticks dbs = Inr tr"
    and "ticks \<noteq> []"
    and "length ticks = unat (sampling_down_factor (tuners dbs))"
    and "down_count dbs = 0"
    and "down_threshold (tuners dbs) \<le> up_threshold (tuners dbs)"
    and "\<forall>r\<in>set tr. tick_load r < down_threshold (tuners dbs)"
    and "policy_min (snd (last ticks)) < policy_cur (snd (last ticks))"
  shows "map tick_request tr =
           replicate (length ticks - 1) None @
           [Some (eco_step_down (snd (last ticks))
                    (eco_freq_step_khz (snd (last ticks)) (tuners dbs)), CPUFREQ_RELATION_L)] \<and>
         down_count (tick_state (last tr)) = 0"
proof -
  have "unat (down_count dbs) + length ticks = unat (sampling_down_factor (tuners dbs))"
    using assms(3,4) by simp
  from debounce_from[OF assms(1,2) this assms(5,6,7)] show ?thesis .
qed

theorem debounce_step_down_witness:
  "map_sum id (map tick_request)
     (eco_run [(const_times 90 100, one_cpu_policy 800 1800 2000),
               (const_times 180 200, one_cpu_policy 800 1800 2000),
               (const_times 270 300, one_cpu_policy 800 1800 2000)]
        \<lparr>tuners = eco_default_tuners\<lparr>sampling_down_factor := 3\<rparr>, cpu_stats = const_stats 0 0,
         down_count = 0\<rparr>)
     = Inr [None, None, Some (1700, CPUFREQ_RELATION_L)] \<and>
   map_sum id (map tick_load)
     (eco_run [(const_times 90 100, one_cpu_policy 800 1800 2000),
               (const_times 180 200, one_cpu_policy 800 1800 2000),
               (const_times 270 300, one_cpu_policy 800 1800 2000)]
        \<lparr>tuners = eco_default_tuners\<lparr>sampling_down_factor := 3\<rparr>, cpu_stats = const_stats 0 0,
         down_count = 0\<rparr>)
     = Inr [9, 9, 9]"
proof -
  let ?p = "one_cpu_policy 800 1800 2000"
  let ?t = "eco_default_tuners\<lparr>sampling_down_factor := 3\<rparr>"
  let ?ticks = "[(const_times 90 100, ?p), (const_times 180 200, ?p), (const_times 270 300, ?p)]"
  let ?d0 = "\<lparr>tuners = ?t, cpu_stats = const_stats 0 0, down_count = 0\<rparr>"
  let ?d1 = "\<lparr>tuners = ?t,
              cpu_stats = (const_stats 0 0)(0 := \<lparr>prev_total_time = 100, prev_busy_time = 10\<rparr>),
              down_count = 1\<rparr>"
  let ?d2 = "\<lparr>tuners = ?t,
              cpu_stats = (const_stats 0 0)(0 := \<lparr>prev_total_time = 200, prev_busy_time = 20\<rparr>),
              down_count = 2\<rparr>"
  let ?d3 = "\<lparr>tuners = ?t,
              cpu_stats = (const_stats 0 0)(0 := \<lparr>prev_total_time = 300, prev_busy_time = 30\<rparr>),
              down_count = 0\<rparr>"
  have l1: "eco_tick_load (const_times 90 100) ?p ?d0 = Inr 9"
    and u1: "eco_dbs_update (const_times 90 100) ?p ?d0 = Inr (?d1, None)"
    by (simp_all add: eco_tick_defs eco_example_defs word_le_nat_alt word_less_nat_alt)
  have l2: "eco_tick_load (const_times 180 200) ?p ?d1 = Inr 9"
    and u2: "eco_dbs_update (const_times 180 200) ?p ?d1 = Inr (?d2, None)"
    by (simp_all add: eco_tick_defs eco_example_defs word_le_nat_alt word_less_nat_alt)
  have l3: "eco_tick_load (const_times 270 300) ?p ?d2 = Inr 9"
    and u3: "eco_dbs_update (const_times 270 300) ?p ?d2
               = Inr (?d3, Some (1700, CPUFREQ_RELATION_L))"
    by (simp_all add: eco_tick_defs eco_example_defs word_le_nat_alt word_less_nat_alt)
  have h: "eco_run ?ticks ?d0 =
             Inr [\<lparr>tick_load = 9, tick_state = ?d1, tick_request = None\<rparr>,
                  \<lparr>tick_load = 9, tick_state = ?d2, tick_request = None\<rparr>,
                  \<lparr>tick_load = 9, tick_state = ?d3,
                   tick_request = Some (1700, CPUFREQ_RELATION_L)\<rparr>]"
    by (simp add: l1 u1 l2 u2 l3 u3)
  show ?thesis
    using debounce_step_down[OF h] h
    by (simp add: eco_example_defs eco_freq_step_khz_def eco_step_down_def)
qed

section \<open>Immediate step-up\<close>

text \<open>
  On a tick whose effective load is strictly above \<open>up_threshold\<close>, whatever
  \<open>down_count\<close> was, \<open>down_count\<close> is 0 afterwards, and if \<open>policy_cur < policy_max\<close>
  the tick requests \<open>min (policy_cur + step) policy_max\<close> with hint
  \<open>CPUFREQ_RELATION_H\<close>, otherwise nothing. The sum is the governor's unsigned 32-bit
  sum: it is the sum of the numbers only when \<open>policy_cur + step\<close> fits in 32 bits.
\<close>

lemma step_up_immediate:
  assumes "eco_tick_load ts policy dbs = Inr eff"
    and "up_threshold (tuners dbs) < eff"
  shows "(\<exists>dbs'. eco_dbs_update ts policy dbs =
            Inr (dbs', if policy_cur policy < policy_max policy
                       then Some (min (policy_cur policy + eco_freq_step_khz policy (tuners dbs))
                                      (policy_max policy), CPUFREQ_RELATION_H)
                       else None) \<and>
            down_count dbs' = 0) \<and>
         (unat (policy_cur policy) + unat (eco_freq_step_khz policy (tuners dbs)) < 2 ^ 32 \<longrightarrow>
            unat (min (policy_cur policy + eco_freq_step_khz policy (tuners dbs)) (policy_max policy))
              = min (unat (policy_cur policy) + unat (eco_freq_step_khz policy (tuners dbs)))
                    (unat (policy_max policy)))"
proof -
  from assms(1) obtain load :: u32 and dbs1 where
    u: "eco_dbs_update ts policy dbs = Inr (eco_decide policy eff dbs1)"
    and t: "tuners dbs1 = tuners dbs"
    by (rule eco_tick_load_calc)
  have a: "\<exists>dbs'. eco_dbs_update ts policy dbs =
            Inr (dbs', if policy_cur policy < policy_max policy
                       then Some (min (policy_cur policy + eco_freq_step_khz policy (tuners dbs))
                                      (policy_max policy), CPUFREQ_RELATION_H)
                       else None) \<and>
            down_count dbs' = 0"
    using assms(2) by (simp add: u t eco_decide_up eco_step_up_min)
  have b: "unat (min (policy_cur policy + s) (policy_max policy))
             = min (unat (policy_cur policy) + unat s) (unat (policy_max policy))"
    if "unat (policy_cur policy) + unat s < 2 ^ 32" for s
  proof -
    have "unat (policy_cur policy + s) = unat (policy_cur policy) + unat s"
      using that by (simp add: unat_add_lem[THEN iffD1])
    then show ?thesis by (simp add: min_def word_le_nat_alt)
  qed
  show ?thesis using a b by blast
qed

text \<open>
  C3. A tick above \<open>up_threshold\<close> with \<open>policy_cur < policy_max\<close> should request
  the smaller of \<open>policy_cur + step\<close> and \<open>policy_max\<close>. The reset of \<open>down_count\<close>
  and the immediate request are as claimed, the target is not: with \<open>policy_cur\<close> at
  4294966796 kHz, \<open>policy_max\<close> at 4294967295 kHz and a step of 42949672 kHz the
  smaller of the two numbers is \<open>policy_max\<close>, but the sum on line 144 wraps, the
  clamp on lines 145 and 146 does not fire, and the request is 42949172 kHz, below the
  current frequency.
\<close>

theorem step_up_request_wraps:
  "eco_tick_load (const_times 0 100) (one_cpu_policy 4294966296 4294966796 4294967295)
       \<lparr>tuners = eco_default_tuners\<lparr>powersave_bias := - 100\<rparr>, cpu_stats = const_stats 0 0,
        down_count = 3\<rparr> = Inr 100 \<and>
   up_threshold (eco_default_tuners\<lparr>powersave_bias := - 100\<rparr>) < 100 \<and>
   policy_cur (one_cpu_policy 4294966296 4294966796 4294967295)
     < policy_max (one_cpu_policy 4294966296 4294966796 4294967295) \<and>
   eco_freq_step_khz (one_cpu_policy 4294966296 4294966796 4294967295)
       (eco_default_tuners\<lparr>powersave_bias := - 100\<rparr>) = 42949672 \<and>
   eco_dbs_update (const_times 0 100) (one_cpu_policy 4294966296 4294966796 4294967295)
       \<lparr>tuners = eco_default_tuners\<lparr>powersave_bias := - 100\<rparr>, cpu_stats = const_stats 0 0,
        down_count = 3\<rparr>
     = Inr (\<lparr>tuners = eco_default_tuners\<lparr>powersave_bias := - 100\<rparr>,
             cpu_stats = (const_stats 0 0)(0 := \<lparr>prev_total_time = 100, prev_busy_time = 100\<rparr>),
             down_count = 0\<rparr>, Some (42949172, CPUFREQ_RELATION_H)) \<and>
   min (unat (4294966796 :: u32) + unat (42949672 :: u32)) (unat (4294967295 :: u32)) = 4294967295 \<and>
   unat (42949172 :: u32) \<noteq> 4294967295 \<and>
   (42949172 :: u32) < policy_cur (one_cpu_policy 4294966296 4294966796 4294967295)"
  by (simp add: eco_eval)

section \<open>Scaling of the load with the frequency\<close>

text \<open>
  C4, as amended. With the totals of the sampler fixed and \<open>raw_usage * policy_cur\<close>
  fitting in 32 bits, the load is \<open>raw_usage * policy_cur div policy_max\<close>, the linear
  function rounded down; and on the policy whose current frequency is half of
  \<open>policy_cur\<close>, the maximum unchanged, the load is \<open>load div 2\<close>.
\<close>

theorem load_scales_with_frequency:
  assumes "eco_sample_cpus ts (policy_cpus policy) (cpu_stats dbs, 0, 0) = (stats', tb, tw)"
    and "tw \<noteq> 0" and "policy_max policy \<noteq> 0"
    and "unat (ucast (tb * 100 div tw) :: u32) * unat (policy_cur policy) < 2 ^ 32"
  shows "\<exists>load.
           eco_calculate_load ts policy dbs = Inr (load, dbs\<lparr>cpu_stats := stats'\<rparr>) \<and>
           unat load = unat (ucast (tb * 100 div tw) :: u32) * unat (policy_cur policy)
                         div unat (policy_max policy) \<and>
           (\<forall>c. unat (policy_cur policy) = 2 * unat c \<longrightarrow>
              eco_calculate_load ts (policy\<lparr>policy_cur := c\<rparr>) dbs
                = Inr (load div 2, dbs\<lparr>cpu_stats := stats'\<rparr>))"
proof -
  define raw :: u32 where "raw = ucast (tb * 100 div tw)"
  define load where "load = raw * policy_cur policy div policy_max policy"
  have fit: "unat raw * unat (policy_cur policy) < 2 ^ 32" using assms(4) by (simp add: raw_def)
  have sc: "eco_scale_load p tb tw = Inr (raw * policy_cur p div policy_max policy)"
    if "policy_max p = policy_max policy" for p
    using assms(2,3) that
    by (simp add: eco_scale_load_def div64_u64_def udiv_def raw_def word_neq_0_conv)
  have c: "eco_calculate_load ts policy dbs = Inr (load, dbs\<lparr>cpu_stats := stats'\<rparr>)"
    by (simp add: eco_calculate_load_def assms(1) sc load_def)
  have m: "unat (raw * policy_cur policy) = unat raw * unat (policy_cur policy)"
    using fit by (simp add: unat_mult_lem[THEN iffD1])
  have v: "unat load = unat raw * unat (policy_cur policy) div unat (policy_max policy)"
    by (simp add: load_def unat_div m)
  have h: "eco_calculate_load ts (policy\<lparr>policy_cur := c\<rparr>) dbs
             = Inr (load div 2, dbs\<lparr>cpu_stats := stats'\<rparr>)"
    if two: "unat (policy_cur policy) = 2 * unat c" for c
  proof -
    have "unat raw * unat c \<le> unat raw * unat (policy_cur policy)"
      by (rule mult_le_mono2) (simp add: two)
    from this fit have "unat raw * unat c < 2 ^ 32" by (rule le_less_trans)
    then have "unat (raw * c) = unat raw * unat c" by (simp add: unat_mult_lem[THEN iffD1])
    then have "unat (raw * c div policy_max policy) = unat raw * unat c div unat (policy_max policy)"
      by (simp add: unat_div)
    also have "\<dots> = unat load div 2" using half_scale[of "unat raw" "unat c"] by (simp add: v two)
    also have "\<dots> = unat (load div 2)" by (simp add: unat_div)
    finally have "raw * c div policy_max policy = load div 2" by (simp only: word_unat_eq_iff)
    then show ?thesis
      by (simp add: eco_calculate_load_def assms(1) sc)
  qed
  show ?thesis using c v h by (auto simp: raw_def)
qed

theorem load_scales_with_frequency_witness:
  "eco_sample_cpus (const_times 10 100) (policy_cpus (one_cpu_policy 800 1800 2000))
       (cpu_stats \<lparr>tuners = eco_default_tuners, cpu_stats = const_stats 0 0, down_count = 0\<rparr>, 0, 0)
     = ((const_stats 0 0)(0 := \<lparr>prev_total_time = 100, prev_busy_time = 90\<rparr>), 90, 100) \<and>
   unat (ucast (90 * 100 div 100 :: u64) :: u32) * unat (policy_cur (one_cpu_policy 800 1800 2000))
     < 2 ^ 32 \<and>
   eco_calculate_load (const_times 10 100) (one_cpu_policy 800 1800 2000)
       \<lparr>tuners = eco_default_tuners, cpu_stats = const_stats 0 0, down_count = 0\<rparr>
     = Inr (81, \<lparr>tuners = eco_default_tuners,
                 cpu_stats = (const_stats 0 0)(0 := \<lparr>prev_total_time = 100, prev_busy_time = 90\<rparr>),
                 down_count = 0\<rparr>) \<and>
   eco_calculate_load (const_times 10 100) ((one_cpu_policy 800 1800 2000)\<lparr>policy_cur := 900\<rparr>)
       \<lparr>tuners = eco_default_tuners, cpu_stats = const_stats 0 0, down_count = 0\<rparr>
     = Inr (40, \<lparr>tuners = eco_default_tuners,
                 cpu_stats = (const_stats 0 0)(0 := \<lparr>prev_total_time = 100, prev_busy_time = 90\<rparr>),
                 down_count = 0\<rparr>)"
proof -
  let ?p = "one_cpu_policy 800 1800 2000"
  let ?d = "\<lparr>tuners = eco_default_tuners, cpu_stats = const_stats 0 0, down_count = 0\<rparr>"
  let ?s = "(const_stats 0 0)(0 := \<lparr>prev_total_time = 100, prev_busy_time = 90\<rparr>)"
  have h1: "eco_sample_cpus (const_times 10 100) (policy_cpus ?p) (cpu_stats ?d, 0, 0)
              = (?s, 90, 100)"
    by (simp add: eco_eval)
  have h2: "(100 :: u64) \<noteq> 0" by simp
  have h3: "policy_max ?p \<noteq> 0" by (simp add: eco_example_defs)
  have h4: "unat (ucast (90 * 100 div 100 :: u64) :: u32) * unat (policy_cur ?p) < 2 ^ 32"
    by (simp add: eco_example_defs)
  from load_scales_with_frequency[OF h1 h2 h3 h4] obtain load where
    c: "eco_calculate_load (const_times 10 100) ?p ?d = Inr (load, ?d\<lparr>cpu_stats := ?s\<rparr>)"
    and v: "unat load = unat (ucast (90 * 100 div 100 :: u64) :: u32) * unat (policy_cur ?p)
                          div unat (policy_max ?p)"
    and h: "\<forall>c. unat (policy_cur ?p) = 2 * unat c \<longrightarrow>
              eco_calculate_load (const_times 10 100) (?p\<lparr>policy_cur := c\<rparr>) ?d
                = Inr (load div 2, ?d\<lparr>cpu_stats := ?s\<rparr>)"
    by blast
  have "unat load = unat (81 :: u32)" using v by (simp add: eco_example_defs)
  then have l: "load = 81" by (simp only: word_unat_eq_iff)
  have "unat (policy_cur ?p) = 2 * unat (900 :: u32)" by (simp add: eco_example_defs)
  with h have "eco_calculate_load (const_times 10 100) (?p\<lparr>policy_cur := 900\<rparr>) ?d
                 = Inr (load div 2, ?d\<lparr>cpu_stats := ?s\<rparr>)"
    by blast
  with c h1 h4 show ?thesis by (simp add: l)
qed

text \<open>
  Where \<open>raw_usage * policy_cur\<close> wraps, halving the frequency does not halve the load:
  at full usage and \<open>policy_max = 67108864\<close> kHz the load is 36 at the maximum frequency
  and 50 at half of it. And the load is linear only up to rounding: at 1 per cent usage
  it is 0 at 1000 kHz and 1 at 2000 kHz.
\<close>

theorem load_not_linear_in_frequency:
  "eco_calculate_load (const_times 0 100) (one_cpu_policy 0 67108864 67108864)
       \<lparr>tuners = eco_default_tuners, cpu_stats = const_stats 0 0, down_count = 0\<rparr>
     = Inr (36, \<lparr>tuners = eco_default_tuners,
                 cpu_stats = (const_stats 0 0)(0 := \<lparr>prev_total_time = 100, prev_busy_time = 100\<rparr>),
                 down_count = 0\<rparr>) \<and>
   eco_calculate_load (const_times 0 100) (one_cpu_policy 0 33554432 67108864)
       \<lparr>tuners = eco_default_tuners, cpu_stats = const_stats 0 0, down_count = 0\<rparr>
     = Inr (50, \<lparr>tuners = eco_default_tuners,
                 cpu_stats = (const_stats 0 0)(0 := \<lparr>prev_total_time = 100, prev_busy_time = 100\<rparr>),
                 down_count = 0\<rparr>) \<and>
   (36 :: u32) div 2 \<noteq> 50 \<and>
   eco_calculate_load (const_times 99 100) (one_cpu_policy 800 1000 2000)
       \<lparr>tuners = eco_default_tuners, cpu_stats = const_stats 0 0, down_count = 0\<rparr>
     = Inr (0, \<lparr>tuners = eco_default_tuners,
                cpu_stats = (const_stats 0 0)(0 := \<lparr>prev_total_time = 100, prev_busy_time = 1\<rparr>),
                down_count = 0\<rparr>) \<and>
   eco_calculate_load (const_times 99 100) (one_cpu_policy 800 2000 2000)
       \<lparr>tuners = eco_default_tuners, cpu_stats = const_stats 0 0, down_count = 0\<rparr>
     = Inr (1, \<lparr>tuners = eco_default_tuners,
                cpu_stats = (const_stats 0 0)(0 := \<lparr>prev_total_time = 100, prev_busy_time = 1\<rparr>),
                down_count = 0\<rparr>) \<and>
   (1 :: u32) \<noteq> 2 * 0"
  by (simp add: eco_eval)

section \<open>Samples without elapsed time\<close>

text \<open>
  The loop body stores the new sample of its cpu and, when no wall time passed on it,
  leaves both totals as they are. Along the loop, each cpu of the list ends with its new
  sample, and the totals are those of the loop over the cpus on which wall time passed.
\<close>

lemma eco_sample_cpu_step:
  "\<exists>tb' tw'.
     eco_sample_cpu ts cpu (stats, tb, tw) = (stats(cpu := new_sample ts cpu), tb', tw') \<and>
     (\<not> has_wall_delta ts stats cpu \<longrightarrow> tb' = tb \<and> tw' = tw)"
proof -
  obtain idle wall where rd: "eco_read_times ts cpu = (idle, wall)"
    by (cases "eco_read_times ts cpu")
  have r: "(stats cpu)\<lparr>prev_total_time := wall, prev_busy_time := wall - idle\<rparr> =
           \<lparr>prev_total_time = wall, prev_busy_time = wall - idle\<rparr>"
    by (cases "stats cpu") simp
  show ?thesis
  proof (cases "0 < wall - prev_total_time (stats cpu)")
    case True
    then have "wall \<noteq> prev_total_time (stats cpu)" by auto
    with True show ?thesis
      by (simp add: eco_sample_cpu_def Let_def r rd new_sample_def has_wall_delta_def)
  next
    case False
    then show ?thesis
      by (simp add: eco_sample_cpu_def Let_def r rd new_sample_def has_wall_delta_def)
  qed
qed

lemma eco_sample_cpu_totals_cong:
  assumes "stats1 cpu = stats2 cpu"
  shows "snd (eco_sample_cpu ts cpu (stats1, tb, tw)) = snd (eco_sample_cpu ts cpu (stats2, tb, tw))"
  using assms by (simp add: eco_sample_cpu_def Let_def split: prod.splits)

lemma eco_sample_cpus_stats:
  "fst (eco_sample_cpus ts cpus (stats, tb, tw)) cpu =
     (if cpu \<in> set cpus then new_sample ts cpu else stats cpu)"
proof (induction cpus arbitrary: stats tb tw)
  case Nil
  then show ?case by simp
next
  case (Cons c rest)
  from eco_sample_cpu_step[of ts c stats tb tw] obtain tb1 tw1 where
    "eco_sample_cpu ts c (stats, tb, tw) = (stats(c := new_sample ts c), tb1, tw1)"
    by blast
  then show ?case by (simp add: Cons.IH)
qed

lemma eco_sample_cpus_filter:
  assumes "\<forall>c. \<not> P c \<longrightarrow> prev_total_time (stats1 c) = snd (eco_read_times ts c)"
    and "\<forall>c. P c \<longrightarrow> stats1 c = stats2 c"
  shows "snd (eco_sample_cpus ts cpus (stats1, tb, tw)) =
         snd (eco_sample_cpus ts (filter P cpus) (stats2, tb, tw))"
  using assms
proof (induction cpus arbitrary: stats1 stats2 tb tw)
  case Nil
  then show ?case by simp
next
  case (Cons c rest)
  from eco_sample_cpu_step[of ts c stats1 tb tw] obtain tb1 tw1 where
    s1: "eco_sample_cpu ts c (stats1, tb, tw) = (stats1(c := new_sample ts c), tb1, tw1)"
    and z1: "\<not> has_wall_delta ts stats1 c \<longrightarrow> tb1 = tb \<and> tw1 = tw"
    by blast
  have tot: "prev_total_time (new_sample ts c) = snd (eco_read_times ts c)"
    by (simp add: new_sample_def split: prod.splits)
  show ?case
  proof (cases "P c")
    case True
    from eco_sample_cpu_step[of ts c stats2 tb tw] obtain tb2 tw2 where
      s2: "eco_sample_cpu ts c (stats2, tb, tw) = (stats2(c := new_sample ts c), tb2, tw2)"
      by blast
    have sc: "stats1 c = stats2 c" using Cons.prems(2) True by simp
    have eq: "tb1 = tb2" "tw1 = tw2"
      using eco_sample_cpu_totals_cong[of stats1 c stats2 ts tb tw] sc by (simp_all add: s1 s2)
    have a: "\<forall>c'. \<not> P c' \<longrightarrow>
               prev_total_time ((stats1(c := new_sample ts c)) c') = snd (eco_read_times ts c')"
      using Cons.prems(1) True by auto
    have b: "\<forall>c'. P c' \<longrightarrow> (stats1(c := new_sample ts c)) c' = (stats2(c := new_sample ts c)) c'"
      using Cons.prems(2) by simp
    have "snd (eco_sample_cpus ts (c # rest) (stats1, tb, tw)) =
          snd (eco_sample_cpus ts rest (stats1(c := new_sample ts c), tb1, tw1))"
      by (simp add: s1)
    also have "\<dots> = snd (eco_sample_cpus ts (filter P rest) (stats2(c := new_sample ts c), tb1, tw1))"
      by (rule Cons.IH[OF a b])
    also have "\<dots> = snd (eco_sample_cpus ts (filter P (c # rest)) (stats2, tb, tw))"
      using True by (simp add: s2 eq)
    finally show ?thesis .
  next
    case False
    then have "\<not> has_wall_delta ts stats1 c"
      using Cons.prems(1) by (simp add: has_wall_delta_def)
    with z1 have eq: "tb1 = tb" "tw1 = tw" by simp_all
    have a: "\<forall>c'. \<not> P c' \<longrightarrow>
               prev_total_time ((stats1(c := new_sample ts c)) c') = snd (eco_read_times ts c')"
      using Cons.prems(1) tot by simp
    have b: "\<forall>c'. P c' \<longrightarrow> (stats1(c := new_sample ts c)) c' = stats2 c'"
      using Cons.prems(2) False by auto
    have "snd (eco_sample_cpus ts (c # rest) (stats1, tb, tw)) =
          snd (eco_sample_cpus ts rest (stats1(c := new_sample ts c), tb, tw))"
      by (simp add: s1 eq)
    also have "\<dots> = snd (eco_sample_cpus ts (filter P rest) (stats2, tb, tw))"
      by (rule Cons.IH[OF a b])
    also have "\<dots> = snd (eco_sample_cpus ts (filter P (c # rest)) (stats2, tb, tw))"
      using False by simp
    finally show ?thesis .
  qed
qed

text \<open>
  C5, as amended. For the whole group of a tick: every cpu of the group ends the loop,
  and the completed load computation, with the wall time read and wall minus idle time
  as its stored sample; and the cpus on which no wall time passed (the unsigned 64-bit
  difference \<open>wall - prev_total_time\<close> is 0) add nothing to the totals: the two totals,
  and with them the load or the division error of the tick, are those of the group
  without these cpus. The sampler itself has no error outcome.
\<close>

theorem zero_delta_units_skipped:
  "(\<forall>cpu\<in>set (policy_cpus policy).
      fst (eco_sample_cpus ts (policy_cpus policy) (cpu_stats dbs, 0, 0)) cpu = new_sample ts cpu) \<and>
   snd (eco_sample_cpus ts (policy_cpus policy) (cpu_stats dbs, 0, 0)) =
     snd (eco_sample_cpus ts (filter (has_wall_delta ts (cpu_stats dbs)) (policy_cpus policy))
            (cpu_stats dbs, 0, 0)) \<and>
   map_sum id fst (eco_calculate_load ts policy dbs) =
     map_sum id fst
       (eco_calculate_load ts
          (policy\<lparr>policy_cpus := filter (has_wall_delta ts (cpu_stats dbs)) (policy_cpus policy)\<rparr>)
          dbs) \<and>
   (\<forall>load dbs'. eco_calculate_load ts policy dbs = Inr (load, dbs') \<longrightarrow>
      (\<forall>cpu\<in>set (policy_cpus policy). cpu_stats dbs' cpu = new_sample ts cpu))"
proof -
  let ?P = "has_wall_delta ts (cpu_stats dbs)"
  let ?full = "eco_sample_cpus ts (policy_cpus policy) (cpu_stats dbs, 0, 0)"
  let ?kept = "eco_sample_cpus ts (filter ?P (policy_cpus policy)) (cpu_stats dbs, 0, 0)"
  have st: "\<forall>cpu\<in>set (policy_cpus policy). fst ?full cpu = new_sample ts cpu"
    by (simp add: eco_sample_cpus_stats)
  have "\<forall>c. \<not> ?P c \<longrightarrow> prev_total_time (cpu_stats dbs c) = snd (eco_read_times ts c)"
    by (simp add: has_wall_delta_def)
  then have tot: "snd ?full = snd ?kept"
    by (intro eco_sample_cpus_filter) simp_all
  obtain s1 tb tw where f: "?full = (s1, tb, tw)" by (cases ?full) auto
  obtain s2 where k: "?kept = (s2, tb, tw)" using tot f by (cases ?kept) auto
  have ld: "map_sum id fst (eco_calculate_load ts policy dbs) =
     map_sum id fst
       (eco_calculate_load ts (policy\<lparr>policy_cpus := filter ?P (policy_cpus policy)\<rparr>) dbs)"
    by (simp add: eco_calculate_load_def f k eco_scale_load_def split: sum.splits)
  have upd: "\<forall>cpu\<in>set (policy_cpus policy). cpu_stats dbs' cpu = new_sample ts cpu"
    if "eco_calculate_load ts policy dbs = Inr (load, dbs')" for load dbs'
  proof -
    from that have "cpu_stats dbs' = s1"
      by (auto simp: eco_calculate_load_def f split: sum.splits)
    with st f show ?thesis by simp
  qed
  show ?thesis using st tot ld upd by blast
qed

theorem zero_delta_units_skipped_witness:
  "filter (has_wall_delta (split_times (50, 200) (10, 100))
             ((const_stats 0 0)(0 := \<lparr>prev_total_time = 200, prev_busy_time = 150\<rparr>))) [0, 1] = [1] \<and>
   snd (eco_sample_cpus (split_times (50, 200) (10, 100)) [0, 1]
          ((const_stats 0 0)(0 := \<lparr>prev_total_time = 200, prev_busy_time = 150\<rparr>), 0, 0))
     = (90, 100) \<and>
   fst (eco_sample_cpus (split_times (50, 200) (10, 100)) [0, 1]
          ((const_stats 0 0)(0 := \<lparr>prev_total_time = 200, prev_busy_time = 150\<rparr>), 0, 0)) 0
     = \<lparr>prev_total_time = 200, prev_busy_time = 150\<rparr> \<and>
   fst (eco_sample_cpus (split_times (50, 200) (10, 100)) [0, 1]
          ((const_stats 0 0)(0 := \<lparr>prev_total_time = 200, prev_busy_time = 150\<rparr>), 0, 0)) 1
     = \<lparr>prev_total_time = 100, prev_busy_time = 90\<rparr> \<and>
   map_sum id fst
     (eco_calculate_load (split_times (50, 200) (10, 100))
        \<lparr>policy_cpus = [0, 1], policy_min = 800, policy_cur = 1800, policy_max = 2000\<rparr>
        \<lparr>tuners = eco_default_tuners,
         cpu_stats = (const_stats 0 0)(0 := \<lparr>prev_total_time = 200, prev_busy_time = 150\<rparr>),
         down_count = 0\<rparr>)
     = Inr 81"
proof -
  let ?ts = "split_times (50, 200) (10, 100)"
  let ?s = "(const_stats 0 0)(0 := \<lparr>prev_total_time = 200, prev_busy_time = 150\<rparr>)"
  let ?p = "\<lparr>policy_cpus = [0, 1], policy_min = 800, policy_cur = 1800, policy_max = 2000\<rparr>"
  let ?d = "\<lparr>tuners = eco_default_tuners, cpu_stats = ?s, down_count = 0\<rparr>"
  have flt: "filter (has_wall_delta ?ts ?s) [0, 1] = [1]"
    by (simp add: has_wall_delta_def eco_read_times_def split_times_def const_stats_def)
  have kept: "snd (eco_sample_cpus ?ts [1] (?s, 0, 0)) = (90, 100)"
    by (simp add: eco_eval)
  have ns: "new_sample ?ts 0 = \<lparr>prev_total_time = 200, prev_busy_time = 150\<rparr>"
    "new_sample ?ts 1 = \<lparr>prev_total_time = 100, prev_busy_time = 90\<rparr>"
    by (simp_all add: new_sample_def eco_read_times_def split_times_def)
  have ld: "map_sum id fst (eco_calculate_load ?ts (?p\<lparr>policy_cpus := [1]\<rparr>) ?d) = Inr 81"
    by (simp add: eco_eval)
  show ?thesis
    using zero_delta_units_skipped[of ?p ?ts ?d] flt kept ns ld by simp
qed

text \<open>
  A wall counter that went backwards is not skipped: the difference is unsigned, so a
  counter read at 5 after 10 passes the test \<open>dt > 0\<close> and adds \<open>2^64 - 5\<close> to the total
  wall time.
\<close>

theorem backwards_wall_time_accumulated:
  "eco_sample_cpu (const_times 5 5) 0 (const_stats 10 0, 0, 0) =
     ((const_stats 10 0)(0 := \<lparr>prev_total_time = 5, prev_busy_time = 0\<rparr>), 0, 18446744073709551611)"
  by (simp add: eco_sample_cpu_def eco_read_times_def eco_example_defs Let_def word_gt_0)

text \<open>
  C6, as amended. When the total wall time of a tick is 0, the computed load is 0. If
  moreover \<open>powersave_bias\<close> is not negative and \<open>down_threshold\<close> is positive, the
  effective load is 0 and the tick takes the branch below \<open>down_threshold\<close>:
  \<open>down_count\<close> is incremented, and when it reaches \<open>sampling_down_factor\<close> it is reset
  and the step-down request is made if \<open>policy_cur > policy_min\<close>.
\<close>

theorem no_elapsed_time_tick:
  assumes "eco_sample_cpus ts (policy_cpus policy) (cpu_stats dbs, 0, 0) = (stats', tb, 0)"
  shows "eco_calculate_load ts policy dbs = Inr (0, dbs\<lparr>cpu_stats := stats'\<rparr>) \<and>
         (0 \<le> sint (powersave_bias (tuners dbs)) \<and> 0 < down_threshold (tuners dbs) \<longrightarrow>
            eco_tick_load ts policy dbs = Inr 0 \<and>
            eco_dbs_update ts policy dbs =
              Inr (if sampling_down_factor (tuners dbs) \<le> down_count dbs + 1
                   then (dbs\<lparr>cpu_stats := stats', down_count := 0\<rparr>,
                         if policy_min policy < policy_cur policy
                         then Some (eco_step_down policy (eco_freq_step_khz policy (tuners dbs)),
                                    CPUFREQ_RELATION_L)
                         else None)
                   else (dbs\<lparr>cpu_stats := stats', down_count := down_count dbs + 1\<rparr>, None)))"
proof -
  have c: "eco_calculate_load ts policy dbs = Inr (0, dbs\<lparr>cpu_stats := stats'\<rparr>)"
    using assms by (simp add: eco_calculate_load_def eco_scale_load_def)
  have e: "eco_effective_load 0 (powersave_bias (tuners dbs)) = 0"
    if "0 \<le> sint (powersave_bias (tuners dbs))"
    using that by (rule eco_effective_load_zero)
  show ?thesis
    using c e by (auto simp: eco_dbs_update_decide[OF c] eco_tick_load_def eco_decide_down)
qed

theorem no_elapsed_time_tick_witness:
  "eco_sample_cpus (const_times 50 200) (policy_cpus (one_cpu_policy 800 1800 2000))
       (cpu_stats \<lparr>tuners = eco_default_tuners\<lparr>sampling_down_factor := 3\<rparr>,
                   cpu_stats = const_stats 200 150, down_count = 1\<rparr>, 0, 0)
     = ((const_stats 200 150)(0 := \<lparr>prev_total_time = 200, prev_busy_time = 150\<rparr>), 0, 0) \<and>
   eco_dbs_update (const_times 50 200) (one_cpu_policy 800 1800 2000)
       \<lparr>tuners = eco_default_tuners\<lparr>sampling_down_factor := 3\<rparr>,
        cpu_stats = const_stats 200 150, down_count = 1\<rparr>
     = Inr (\<lparr>tuners = eco_default_tuners\<lparr>sampling_down_factor := 3\<rparr>,
             cpu_stats = (const_stats 200 150)(0 := \<lparr>prev_total_time = 200, prev_busy_time = 150\<rparr>),
             down_count = 2\<rparr>, None)"
proof -
  have h: "eco_sample_cpus (const_times 50 200) (policy_cpus (one_cpu_policy 800 1800 2000))
       (cpu_stats \<lparr>tuners = eco_default_tuners\<lparr>sampling_down_factor := 3\<rparr>,
                   cpu_stats = const_stats 200 150, down_count = 1\<rparr>, 0, 0)
     = ((const_stats 200 150)(0 := \<lparr>prev_total_time = 200, prev_busy_time = 150\<rparr>), 0, 0)"
    by (simp add: eco_sample_cpu_def eco_read_times_def eco_example_defs Let_def)
  show ?thesis
    using no_elapsed_time_tick[OF h] h by (simp add: eco_example_defs)
qed

text \<open>
  With a negative bias the branch is not taken: for \<open>powersave_bias = -30\<close> a tick
  without elapsed time has load 0 and effective load 30, which is inside the band of
  the default thresholds, and \<open>down_count\<close> goes from 1 to 0 instead of 2.
\<close>

theorem no_elapsed_time_negative_bias:
  "eco_calculate_load (const_times 50 200) (one_cpu_policy 800 1800 2000)
       \<lparr>tuners = eco_default_tuners\<lparr>sampling_down_factor := 3, powersave_bias := - 30\<rparr>,
        cpu_stats = const_stats 200 150, down_count = 1\<rparr>
     = Inr (0, \<lparr>tuners = eco_default_tuners\<lparr>sampling_down_factor := 3, powersave_bias := - 30\<rparr>,
                cpu_stats = (const_stats 200 150)(0 := \<lparr>prev_total_time = 200, prev_busy_time = 150\<rparr>),
                down_count = 1\<rparr>) \<and>
   0 < down_threshold (eco_default_tuners\<lparr>sampling_down_factor := 3, powersave_bias := - 30\<rparr>) \<and>
   eco_tick_load (const_times 50 200) (one_cpu_policy 800 1800 2000)
       \<lparr>tuners = eco_default_tuners\<lparr>sampling_down_factor := 3, powersave_bias := - 30\<rparr>,
        cpu_stats = const_stats 200 150, down_count = 1\<rparr> = Inr 30 \<and>
   eco_dbs_update (const_times 50 200) (one_cpu_policy 800 1800 2000)
       \<lparr>tuners = eco_default_tuners\<lparr>sampling_down_factor := 3, powersave_bias := - 30\<rparr>,
        cpu_stats = const_stats 200 150, down_count = 1\<rparr>
     = Inr (\<lparr>tuners = eco_default_tuners\<lparr>sampling_down_factor := 3, powersave_bias := - 30\<rparr>,
             cpu_stats = (const_stats 200 150)(0 := \<lparr>prev_total_time = 200, prev_busy_time = 150\<rparr>),
             down_count = 0\<rparr>, None)"
  by (simp add: eco_tick_defs eco_example_defs)

section \<open>The hysteresis band\<close>

text \<open>
  C7. Along a run of ticks whose effective loads all lie strictly between
  \<open>down_threshold\<close> and \<open>up_threshold\<close>, no tick makes a request and \<open>down_count\<close> is
  0 after every tick.
\<close>

theorem hysteresis_band_holds:
  assumes "eco_run ticks dbs = Inr tr"
    and "\<forall>r\<in>set tr.
           down_threshold (tuners dbs) < tick_load r \<and> tick_load r < up_threshold (tuners dbs)"
  shows "length tr = length ticks \<and>
         (\<forall>r\<in>set tr. tick_request r = None \<and> down_count (tick_state r) = 0)"
  using assms
proof (induction ticks arbitrary: dbs tr)
  case Nil
  then show ?case by simp
next
  case (Cons tick rest)
  obtain ts policy where tick: "tick = (ts, policy)" by (cases tick)
  from Cons.prems(1) obtain eff dbs' req tr' where
    e: "eco_tick_load ts policy dbs = Inr eff"
    and u: "eco_dbs_update ts policy dbs = Inr (dbs', req)"
    and r: "eco_run rest dbs' = Inr tr'" and tr: "tr = \<lparr>tick_load = eff, tick_state = dbs', tick_request = req\<rparr> # tr'"
    unfolding tick by (rule eco_run_Cons)
  from e obtain load :: u32 and dbs1 where
    d: "eco_dbs_update ts policy dbs = Inr (eco_decide policy eff dbs1)"
    and t1: "tuners dbs1 = tuners dbs"
    by (rule eco_tick_load_calc)
  have band: "down_threshold (tuners dbs) < eff" "eff < up_threshold (tuners dbs)"
    using Cons.prems(2) tr by simp_all
  have "eco_decide policy eff dbs1 = (dbs1\<lparr>down_count := 0\<rparr>, None)"
    using band t1 by (intro eco_decide_band) (simp_all add: not_less less_imp_le)
  with u d have now: "req = None" "down_count dbs' = 0" by auto
  have t: "tuners dbs' = tuners dbs" using u by (rule eco_dbs_update_tuners)
  have "\<forall>r\<in>set tr'.
          down_threshold (tuners dbs') < tick_load r \<and> tick_load r < up_threshold (tuners dbs')"
    using Cons.prems(2) tr t by simp
  from Cons.IH[OF r this] now show ?case by (simp add: tr)
qed

theorem hysteresis_band_holds_witness:
  "map_sum id (map tick_load)
     (eco_run [(const_times 10 100, one_cpu_policy 800 1000 2000),
               (const_times 20 200, one_cpu_policy 800 1000 2000)]
        \<lparr>tuners = eco_default_tuners, cpu_stats = const_stats 0 0, down_count = 2\<rparr>)
     = Inr [45, 45] \<and>
   map_sum id (map tick_request)
     (eco_run [(const_times 10 100, one_cpu_policy 800 1000 2000),
               (const_times 20 200, one_cpu_policy 800 1000 2000)]
        \<lparr>tuners = eco_default_tuners, cpu_stats = const_stats 0 0, down_count = 2\<rparr>)
     = Inr [None, None] \<and>
   map_sum id (map (down_count \<circ> tick_state))
     (eco_run [(const_times 10 100, one_cpu_policy 800 1000 2000),
               (const_times 20 200, one_cpu_policy 800 1000 2000)]
        \<lparr>tuners = eco_default_tuners, cpu_stats = const_stats 0 0, down_count = 2\<rparr>)
     = Inr [0, 0]"
proof -
  let ?p = "one_cpu_policy 800 1000 2000"
  let ?ticks = "[(const_times 10 100, ?p), (const_times 20 200, ?p)]"
  let ?d0 = "\<lparr>tuners = eco_default_tuners, cpu_stats = const_stats 0 0, down_count = 2\<rparr>"
  let ?d1 = "\<lparr>tuners = eco_default_tuners,
              cpu_stats = (const_stats 0 0)(0 := \<lparr>prev_total_time = 100, prev_busy_time = 90\<rparr>),
              down_count = 0\<rparr>"
  let ?d2 = "\<lparr>tuners = eco_default_tuners,
              cpu_stats = (const_stats 0 0)(0 := \<lparr>prev_total_time = 200, prev_busy_time = 180\<rparr>),
              down_count = 0\<rparr>"
  have l1: "eco_tick_load (const_times 10 100) ?p ?d0 = Inr 45"
    and u1: "eco_dbs_update (const_times 10 100) ?p ?d0 = Inr (?d1, None)"
    by (simp_all add: eco_tick_defs eco_example_defs word_le_nat_alt word_less_nat_alt)
  have l2: "eco_tick_load (const_times 20 200) ?p ?d1 = Inr 45"
    and u2: "eco_dbs_update (const_times 20 200) ?p ?d1 = Inr (?d2, None)"
    by (simp_all add: eco_tick_defs eco_example_defs word_le_nat_alt word_less_nat_alt)
  have h: "eco_run ?ticks ?d0 =
             Inr [\<lparr>tick_load = 45, tick_state = ?d1, tick_request = None\<rparr>,
                  \<lparr>tick_load = 45, tick_state = ?d2, tick_request = None\<rparr>]"
    by (simp add: l1 u1 l2 u2)
  show ?thesis
    using hysteresis_band_holds[OF h] h by (simp add: eco_example_defs)
qed

section \<open>The bias\<close>

text \<open>
  C8. The effective load is a function of the load and the bias alone: where the
  subtraction does not overflow a C \<^verbatim>\<open>int\<close>, it is \<open>load - powersave_bias\<close> clamped to
  0..100. For load 40 and bias 30 it is 10, and a tick that computes load 40 under
  bias 30, \<open>down_threshold = 20\<close> and an \<open>up_threshold\<close> of at least 10 takes the branch
  below \<open>down_threshold\<close>, debounced by \<open>sampling_down_factor\<close>.
\<close>

theorem bias_adjuster_clamp:
  "(uint load < 2 ^ 31 \<and> - (2 ^ 31) \<le> uint load - sint bias \<and> uint load - sint bias < 2 ^ 31 \<longrightarrow>
      sint (eco_effective_load load bias) = max 0 (min 100 (uint load - sint bias))) \<and>
   eco_effective_load 40 30 = 10 \<and>
   (eco_calculate_load ts policy dbs = Inr (40, dbs1) \<and> powersave_bias (tuners dbs) = 30 \<and>
    down_threshold (tuners dbs) = 20 \<and> 10 \<le> up_threshold (tuners dbs) \<longrightarrow>
      eco_tick_load ts policy dbs = Inr 10 \<and>
      eco_dbs_update ts policy dbs =
        Inr (if sampling_down_factor (tuners dbs) \<le> down_count dbs + 1
             then (dbs1\<lparr>down_count := 0\<rparr>,
                   if policy_min policy < policy_cur policy
                   then Some (eco_step_down policy (eco_freq_step_khz policy (tuners dbs)),
                              CPUFREQ_RELATION_L)
                   else None)
             else (dbs1\<lparr>down_count := down_count dbs + 1\<rparr>, None)))"
proof -
  have a: "sint (eco_effective_load load bias) = max 0 (min 100 (uint load - sint bias))"
    if "uint load < 2 ^ 31" "- (2 ^ 31) \<le> uint load - sint bias" "uint load - sint bias < 2 ^ 31"
  proof -
    have "sint load = uint load" using that(1) by (rule sint_eq_uint_small)
    then have "sint (load - bias) = uint load - sint bias"
      using that(2,3) sint_sub_no_overflow[of load bias] by simp
    then show ?thesis by (simp add: eco_effective_load_clamp)
  qed
  have b: "eco_effective_load 40 30 = 10" by (simp add: eco_effective_load_def)
  have c: "eco_tick_load ts policy dbs = Inr 10 \<and>
      eco_dbs_update ts policy dbs =
        Inr (if sampling_down_factor (tuners dbs) \<le> down_count dbs + 1
             then (dbs1\<lparr>down_count := 0\<rparr>,
                   if policy_min policy < policy_cur policy
                   then Some (eco_step_down policy (eco_freq_step_khz policy (tuners dbs)),
                              CPUFREQ_RELATION_L)
                   else None)
             else (dbs1\<lparr>down_count := down_count dbs + 1\<rparr>, None))"
    if c: "eco_calculate_load ts policy dbs = Inr (40, dbs1)"
      and t: "powersave_bias (tuners dbs) = 30" "down_threshold (tuners dbs) = 20"
        "10 \<le> up_threshold (tuners dbs)"
  proof -
    note f = eco_calculate_load_fields[OF c]
    have up: "\<not> up_threshold (tuners dbs1) < 10" using t(3) f by (simp add: not_less)
    have dn: "(10 :: 32 word) < down_threshold (tuners dbs1)" using t(2) f by simp
    show ?thesis
      using eco_decide_down[OF up dn, of policy] c t f
      by (simp add: eco_dbs_update_decide[OF c] eco_tick_load_def b)
  qed
  show ?thesis using a b c by blast
qed

theorem bias_adjuster_clamp_witness:
  "uint (40 :: 32 word) < 2 ^ 31 \<and> - (2 ^ 31) \<le> uint (40 :: 32 word) - sint (30 :: 32 word) \<and>
   uint (40 :: 32 word) - sint (30 :: 32 word) < 2 ^ 31 \<and>
   sint (eco_effective_load 40 30) = 10 \<and>
   eco_calculate_load (const_times 60 100) (one_cpu_policy 800 2000 2000)
       \<lparr>tuners = eco_default_tuners\<lparr>powersave_bias := 30\<rparr>, cpu_stats = const_stats 0 0,
        down_count = 0\<rparr>
     = Inr (40, \<lparr>tuners = eco_default_tuners\<lparr>powersave_bias := 30\<rparr>,
                 cpu_stats = (const_stats 0 0)(0 := \<lparr>prev_total_time = 100, prev_busy_time = 40\<rparr>),
                 down_count = 0\<rparr>) \<and>
   eco_dbs_update (const_times 60 100) (one_cpu_policy 800 2000 2000)
       \<lparr>tuners = eco_default_tuners\<lparr>powersave_bias := 30\<rparr>, cpu_stats = const_stats 0 0,
        down_count = 0\<rparr>
     = Inr (\<lparr>tuners = eco_default_tuners\<lparr>powersave_bias := 30\<rparr>,
             cpu_stats = (const_stats 0 0)(0 := \<lparr>prev_total_time = 100, prev_busy_time = 40\<rparr>),
             down_count = 0\<rparr>, Some (1900, CPUFREQ_RELATION_L))"
proof -
  have h: "eco_calculate_load (const_times 60 100) (one_cpu_policy 800 2000 2000)
       \<lparr>tuners = eco_default_tuners\<lparr>powersave_bias := 30\<rparr>, cpu_stats = const_stats 0 0,
        down_count = 0\<rparr>
     = Inr (40, \<lparr>tuners = eco_default_tuners\<lparr>powersave_bias := 30\<rparr>,
                 cpu_stats = (const_stats 0 0)(0 := \<lparr>prev_total_time = 100, prev_busy_time = 40\<rparr>),
                 down_count = 0\<rparr>)"
    by (simp add: eco_tick_defs eco_example_defs)
  show ?thesis
    using bias_adjuster_clamp[of 40 30 "const_times 60 100" "one_cpu_policy 800 2000 2000"
        "\<lparr>tuners = eco_default_tuners\<lparr>powersave_bias := 30\<rparr>, cpu_stats = const_stats 0 0,
          down_count = 0\<rparr>"
        "\<lparr>tuners = eco_default_tuners\<lparr>powersave_bias := 30\<rparr>,
          cpu_stats = (const_stats 0 0)(0 := \<lparr>prev_total_time = 100, prev_busy_time = 40\<rparr>),
          down_count = 0\<rparr>"] h
    by (simp add: eco_example_defs eco_freq_step_khz_def eco_step_down_def)
qed

section \<open>The step size\<close>

text \<open>
  C9. The step of a tick is \<open>policy_max * freq_step div 100\<close> in 32-bit arithmetic, with
  1000 kHz in its place whenever that is 0, as it is for a \<open>freq_step\<close> of 0. It is never
  0, and every request a tick makes is the step-up or the step-down target built from it.
\<close>

theorem freq_step_khz_never_zero:
  "eco_freq_step_khz policy (tuners dbs) \<noteq> 0 \<and>
   eco_freq_step_khz policy (tuners dbs) =
     (if policy_max policy * freq_step (tuners dbs) div 100 = 0 then 1000
      else policy_max policy * freq_step (tuners dbs) div 100) \<and>
   (freq_step (tuners dbs) = 0 \<longrightarrow> eco_freq_step_khz policy (tuners dbs) = 1000) \<and>
   (\<forall>dbs' f rel. eco_dbs_update ts policy dbs = Inr (dbs', Some (f, rel)) \<longrightarrow>
      (f, rel) = (eco_step_up policy (eco_freq_step_khz policy (tuners dbs)), CPUFREQ_RELATION_H) \<or>
      (f, rel) = (eco_step_down policy (eco_freq_step_khz policy (tuners dbs)), CPUFREQ_RELATION_L))"
proof -
  have req: "(f, rel) = (eco_step_up policy (eco_freq_step_khz policy (tuners dbs)), CPUFREQ_RELATION_H) \<or>
      (f, rel) = (eco_step_down policy (eco_freq_step_khz policy (tuners dbs)), CPUFREQ_RELATION_L)"
    if u: "eco_dbs_update ts policy dbs = Inr (dbs', Some (f, rel))" for dbs' f rel
  proof -
    obtain load dbs1 where c: "eco_calculate_load ts policy dbs = Inr (load, dbs1)"
      using u by (auto simp: eco_dbs_update_def split: sum.splits)
    from u show ?thesis
      unfolding eco_dbs_update_decide[OF c]
      by (auto simp: eco_decide_def Let_def eco_calculate_load_fields(1)[OF c] split: if_splits)
  qed
  show ?thesis
    using req by (simp add: eco_freq_step_khz_def Let_def)
qed

theorem freq_step_khz_never_zero_witness:
  "freq_step (eco_default_tuners\<lparr>freq_step := 0\<rparr>) = 0 \<and>
   eco_freq_step_khz (one_cpu_policy 800 1800 2000) (eco_default_tuners\<lparr>freq_step := 0\<rparr>) = 1000 \<and>
   eco_dbs_update (const_times 10 100) (one_cpu_policy 800 1800 2000)
       \<lparr>tuners = eco_default_tuners\<lparr>freq_step := 0\<rparr>, cpu_stats = const_stats 0 0, down_count = 0\<rparr>
     = Inr (\<lparr>tuners = eco_default_tuners\<lparr>freq_step := 0\<rparr>,
             cpu_stats = (const_stats 0 0)(0 := \<lparr>prev_total_time = 100, prev_busy_time = 90\<rparr>),
             down_count = 0\<rparr>, Some (2000, CPUFREQ_RELATION_H)) \<and>
   (2000, CPUFREQ_RELATION_H) = (eco_step_up (one_cpu_policy 800 1800 2000) 1000, CPUFREQ_RELATION_H)"
  using freq_step_khz_never_zero[of "one_cpu_policy 800 1800 2000"
      "\<lparr>tuners = eco_default_tuners\<lparr>freq_step := 0\<rparr>, cpu_stats = const_stats 0 0, down_count = 0\<rparr>"
      "const_times 10 100"]
  by (simp add: eco_tick_defs eco_example_defs)

section \<open>Division by zero\<close>

text \<open>
  C10, as amended. With \<open>policy_max \<noteq> 0\<close> the load computation and the whole tick
  complete: the division by the total wall time is guarded and the only other divisors
  are \<open>policy_max\<close> and the constant 100. The tick divides by zero exactly when
  \<open>policy_max = 0\<close> and the total wall time is not 0.
\<close>

theorem divisions_guarded:
  "(policy_max policy \<noteq> 0 \<longrightarrow>
      (\<exists>load dbs1. eco_calculate_load ts policy dbs = Inr (load, dbs1)) \<and>
      (\<exists>dbs' req. eco_dbs_update ts policy dbs = Inr (dbs', req))) \<and>
   (eco_calculate_load ts policy dbs = Inl Divide_Error \<longleftrightarrow>
      policy_max policy = 0 \<and>
      snd (snd (eco_sample_cpus ts (policy_cpus policy) (cpu_stats dbs, 0, 0))) \<noteq> 0) \<and>
   (eco_dbs_update ts policy dbs = Inl Divide_Error \<longleftrightarrow>
      eco_calculate_load ts policy dbs = Inl Divide_Error)"
proof -
  obtain stats' tb tw where
    s: "eco_sample_cpus ts (policy_cpus policy) (cpu_stats dbs, 0, 0) = (stats', tb, tw)"
    by (cases "eco_sample_cpus ts (policy_cpus policy) (cpu_stats dbs, 0, 0)") auto
  have c: "eco_calculate_load ts policy dbs = Inl Divide_Error \<longleftrightarrow>
             policy_max policy = 0 \<and> tw \<noteq> 0"
    using eco_scale_load_error[of policy tb tw Divide_Error]
    by (auto simp: eco_calculate_load_def s split: sum.splits)
  have u: "eco_dbs_update ts policy dbs = Inl Divide_Error \<longleftrightarrow>
             eco_calculate_load ts policy dbs = Inl Divide_Error"
    by (auto simp: eco_dbs_update_def split: sum.splits)
  have ok: "\<exists>load dbs1. eco_calculate_load ts policy dbs = Inr (load, dbs1)"
    if "policy_max policy \<noteq> 0"
  proof (cases "eco_calculate_load ts policy dbs")
    case (Inl e)
    then have "eco_calculate_load ts policy dbs = Inl Divide_Error" by (cases e) simp
    with c that show ?thesis by simp
  next
    case (Inr r)
    then show ?thesis by (cases r) simp
  qed
  have ok2: "\<exists>dbs' req. eco_dbs_update ts policy dbs = Inr (dbs', req)"
    if "policy_max policy \<noteq> 0"
  proof -
    from ok[OF that] obtain load dbs1 where "eco_calculate_load ts policy dbs = Inr (load, dbs1)"
      by blast
    then show ?thesis
      by (cases "eco_decide policy (eco_effective_load load (powersave_bias (tuners dbs))) dbs1")
        (simp add: eco_dbs_update_decide)
  qed
  show ?thesis using c u ok ok2 by (simp add: s)
qed

theorem divisions_guarded_witness:
  "policy_max (one_cpu_policy 800 1800 2000) \<noteq> 0 \<and>
   (\<exists>load dbs1. eco_calculate_load (const_times 10 100) (one_cpu_policy 800 1800 2000)
       \<lparr>tuners = eco_default_tuners, cpu_stats = const_stats 0 0, down_count = 0\<rparr>
      = Inr (load, dbs1)) \<and>
   eco_calculate_load (const_times 10 100) (one_cpu_policy 0 0 0)
       \<lparr>tuners = eco_default_tuners, cpu_stats = const_stats 0 0, down_count = 0\<rparr>
     = Inl Divide_Error"
  using divisions_guarded[of "one_cpu_policy 800 1800 2000" "const_times 10 100"
      "\<lparr>tuners = eco_default_tuners, cpu_stats = const_stats 0 0, down_count = 0\<rparr>"]
    divisions_guarded[of "one_cpu_policy 0 0 0" "const_times 10 100"
      "\<lparr>tuners = eco_default_tuners, cpu_stats = const_stats 0 0, down_count = 0\<rparr>"]
  by (simp add: eco_example_defs eco_sample_cpu_def eco_read_times_def Let_def)

text \<open>
  With \<open>policy_max = 0\<close> and no elapsed wall time the scaling division is not reached
  and the load is 0.
\<close>

theorem zero_max_freq_without_division:
  "policy_max (one_cpu_policy 0 0 0) = 0 \<and>
   eco_calculate_load (const_times 50 200) (one_cpu_policy 0 0 0)
       \<lparr>tuners = eco_default_tuners, cpu_stats = const_stats 200 150, down_count = 0\<rparr>
     = Inr (0, \<lparr>tuners = eco_default_tuners,
                cpu_stats = (const_stats 200 150)(0 := \<lparr>prev_total_time = 200, prev_busy_time = 150\<rparr>),
                down_count = 0\<rparr>)"
  by (simp add: eco_tick_defs eco_example_defs)

end
